theory Spec2Isabelle
  imports Main "HOL-Library.AList"
begin

section \<open>Exceptions\<close>

text \<open>
  The source raises \<^verbatim>\<open>ValueError\<close> (field validation, tuple unpacking, the date
  constructor) and \<^verbatim>\<open>IndexError\<close> (\<^verbatim>\<open>args[0]\<close> on an empty list). The decorator
  \<^verbatim>\<open>input_error\<close> catches \<^verbatim>\<open>Exception\<close>, so the model separates the classes below
  \<^verbatim>\<open>Exception\<close> from those that derive from \<^verbatim>\<open>BaseException\<close> only.
  Every raise is a value \<open>Inl e\<close> of a sum type.
\<close>

datatype exn =
    ValueError string
  | IndexError string
  | KeyboardInterrupt
  | SystemExit

fun is_Exception :: "exn \<Rightarrow> bool" where
  "is_Exception (ValueError m) = True"
| "is_Exception (IndexError m) = True"
| "is_Exception KeyboardInterrupt = False"
| "is_Exception SystemExit = False"

fun str_exn :: "exn \<Rightarrow> string" where
  "str_exn (ValueError m) = m"
| "str_exn (IndexError m) = m"
| "str_exn KeyboardInterrupt = []"
| "str_exn SystemExit = []"

section \<open>Characters and decimal numerals\<close>

text \<open>
  Strings are lists of 8-bit characters, the code points below 256 of a Python \<^verbatim>\<open>str\<close>.
  Among these the pattern class \<^verbatim>\<open>\d\<close> holds exactly the characters \<^verbatim>\<open>0\<close> to \<^verbatim>\<open>9\<close>.
  A Python \<^verbatim>\<open>str\<close> can also hold code points from 256 on, among them further decimal
  digits that \<^verbatim>\<open>\d\<close> and \<^verbatim>\<open>int\<close> accept; strings with such code points are not
  values of this model, and nothing below speaks about them.
\<close>

definition is_digit :: "char \<Rightarrow> bool" where
  "is_digit c \<longleftrightarrow> 48 \<le> (of_char c :: nat) \<and> (of_char c :: nat) \<le> 57"

definition digit_val :: "char \<Rightarrow> nat" where
  "digit_val c = of_char c - 48"

definition digit_char :: "nat \<Rightarrow> char" where
  "digit_char n = char_of (48 + n)"

definition newline :: char where
  "newline = CHR 0x0A"

text \<open>\<^verbatim>\<open>int(s)\<close> on a string of decimal digits, most significant digit first.\<close>

definition int_of_digits :: "string \<Rightarrow> nat" where
  "int_of_digits s = foldl (\<lambda>acc c. 10 * acc + digit_val c) 0 s"

text \<open>\<^verbatim>\<open>str(n)\<close> for a non-negative integer.\<close>

fun str_nat :: "nat \<Rightarrow> string" where
  "str_nat n = (if n < 10 then [digit_char n] else str_nat (n div 10) @ [digit_char (n mod 10)])"

declare str_nat.simps [simp del]

text \<open>The formats \<^verbatim>\<open>%02d\<close> and \<^verbatim>\<open>%04d\<close> on a non-negative integer.\<close>

definition zfill :: "nat \<Rightarrow> string \<Rightarrow> string" where
  "zfill w s = replicate (w - length s) (CHR ''0'') @ s"

definition pad2 :: "nat \<Rightarrow> string" where
  "pad2 n = zfill 2 (str_nat n)"

definition pad4 :: "nat \<Rightarrow> string" where
  "pad4 n = zfill 4 (str_nat n)"

section \<open>Fields\<close>

datatype Name = Name (name_value: string)

datatype Phone = Phone (phone_value: string)

text \<open>\<^verbatim>\<open>Name.__init__\<close>: the empty string is the only rejected value.\<close>

definition Name_init :: "string \<Rightarrow> exn + Name" where
  "Name_init v = (if v = [] then Inl (ValueError ''Name cannot be empty'') else Inr (Name v))"

text \<open>
  The pattern \<^verbatim>\<open>^\d{10}$\<close> under \<^verbatim>\<open>re.match\<close>: \<open>match_digits n s\<close> consumes \<open>n\<close>
  digits and gives the rest of the subject; \<^verbatim>\<open>$\<close> without the MULTILINE flag holds at the
  end of the subject and also just before a newline that is the subject's last character.
\<close>

fun match_digits :: "nat \<Rightarrow> string \<Rightarrow> string option" where
  "match_digits 0 s = Some s"
| "match_digits (Suc n) [] = None"
| "match_digits (Suc n) (c # s) = (if is_digit c then match_digits n s else None)"

definition at_dollar :: "string \<Rightarrow> bool" where
  "at_dollar rest \<longleftrightarrow> rest = [] \<or> rest = [newline]"

definition re_match_phone :: "string \<Rightarrow> bool" where
  "re_match_phone v = (case match_digits 10 v of None \<Rightarrow> False | Some rest \<Rightarrow> at_dollar rest)"

definition validate_phone :: "string \<Rightarrow> exn + unit" where
  "validate_phone v =
     (if \<not> re_match_phone v then Inl (ValueError ''Phone number must be 10 digits long'')
      else Inr ())"

definition Phone_init :: "string \<Rightarrow> exn + Phone" where
  "Phone_init v = (case validate_phone v of Inl e \<Rightarrow> Inl e | Inr u \<Rightarrow> Inr (Phone v))"

text \<open>\<^verbatim>\<open>Field.__str__\<close> for a Phone.\<close>

definition Phone_str :: "Phone \<Rightarrow> string" where
  "Phone_str p = phone_value p"

text \<open>What the specification calls a phone: exactly ten decimal digits, nothing else.\<close>

definition ten_digits :: "string \<Rightarrow> bool" where
  "ten_digits p \<longleftrightarrow> length p = 10 \<and> list_all is_digit p"

section \<open>Calendar dates\<close>

text \<open>
  The standard library's \<^verbatim>\<open>datetime.date\<close>: a proleptic Gregorian date with
  \<^verbatim>\<open>1 <= year <= 9999\<close>. The constructor checks its fields and raises \<^verbatim>\<open>ValueError\<close>;
  \<^verbatim>\<open>replace(year=...)\<close> goes through the constructor again.
\<close>

datatype date = Date (year: nat) (month: nat) (day: nat)

definition is_leap :: "nat \<Rightarrow> bool" where
  "is_leap y \<longleftrightarrow> y mod 4 = 0 \<and> (y mod 100 \<noteq> 0 \<or> y mod 400 = 0)"

definition DAYS_IN_MONTH :: "nat list" where
  "DAYS_IN_MONTH = [0, 31, 28, 31, 30, 31, 30, 31, 31, 30, 31, 30, 31]"

definition DAYS_BEFORE_MONTH :: "nat list" where
  "DAYS_BEFORE_MONTH = [0, 0, 31, 59, 90, 120, 151, 181, 212, 243, 273, 304, 334]"

text \<open>Both tables are read only at a month between 1 and 12.\<close>

definition days_in_month :: "nat \<Rightarrow> nat \<Rightarrow> nat" where
  "days_in_month y m = (if m = 2 \<and> is_leap y then 29 else DAYS_IN_MONTH ! m)"

definition days_before_year :: "nat \<Rightarrow> int" where
  "days_before_year y =
     (let y1 = int y - 1 in y1 * 365 + y1 div 4 - y1 div 100 + y1 div 400)"

definition days_before_month :: "nat \<Rightarrow> nat \<Rightarrow> int" where
  "days_before_month y m =
     int (DAYS_BEFORE_MONTH ! m) + (if m > 2 \<and> is_leap y then 1 else 0)"

definition date_new :: "nat \<Rightarrow> nat \<Rightarrow> nat \<Rightarrow> exn + date" where
  "date_new y m d =
     (if \<not> (1 \<le> y \<and> y \<le> 9999) then
        Inl (ValueError (''year '' @ str_nat y @ '' is out of range''))
      else if \<not> (1 \<le> m \<and> m \<le> 12) then Inl (ValueError ''month must be in 1..12'')
      else if \<not> (1 \<le> d \<and> d \<le> days_in_month y m) then
        Inl (ValueError ''day is out of range for month'')
      else Inr (Date y m d))"

definition replace_year :: "date \<Rightarrow> nat \<Rightarrow> exn + date" where
  "replace_year dt y = date_new y (month dt) (day dt)"

definition toordinal :: "date \<Rightarrow> int" where
  "toordinal dt =
     days_before_year (year dt) + days_before_month (year dt) (month dt) + int (day dt)"

text \<open>\<^verbatim>\<open>(a - b).days\<close> for two dates.\<close>

definition days_between :: "date \<Rightarrow> date \<Rightarrow> int" where
  "days_between a b = toordinal a - toordinal b"

text \<open>\<^verbatim>\<open>a < b\<close> on dates compares the triples (year, month, day).\<close>

definition date_less :: "date \<Rightarrow> date \<Rightarrow> bool" where
  "date_less a b \<longleftrightarrow>
     year a < year b \<or> (year a = year b \<and> (month a < month b \<or> (month a = month b \<and> day a < day b)))"

text \<open>
  \<^verbatim>\<open>str(date)\<close> is the ISO form, which the library builds itself with the year padded to
  four digits. \<^verbatim>\<open>strftime("%d.%m.%Y")\<close> is passed to the C library: day and month come
  with two digits, and the year comes as the GNU C library prints \<^verbatim>\<open>%Y\<close>, the decimal
  numeral without padding, so that a year below 1000 has fewer than four digits
  (CPython 3.11 on Linux gives \<^verbatim>\<open>999\<close> for the year 999).
\<close>

definition isoformat :: "date \<Rightarrow> string" where
  "isoformat dt = pad4 (year dt) @ ''-'' @ pad2 (month dt) @ ''-'' @ pad2 (day dt)"

definition strftime_dmY :: "date \<Rightarrow> string" where
  "strftime_dmY dt = pad2 (day dt) @ ''.'' @ pad2 (month dt) @ ''.'' @ str_nat (year dt)"

subsection \<open>Parsing with the format \<^verbatim>\<open>%d.%m.%Y\<close>\<close>

text \<open>
  \<^verbatim>\<open>strptime\<close> turns the format into the regular expression
  \<^verbatim>\<open>(3[0-1]|[1-2]\d|0[1-9]|[1-9]| [1-9])\.(1[0-2]|0[1-9]|[1-9])\.(\d\d\d\d)\<close>,
  matches it at the start of the input, and rejects input left over after the match.
  Each directive gives its matches in the order of its alternatives, as (text, rest);
  the first complete path is the match the backtracking matcher finds.
\<close>

definition nonzero_digit :: "char \<Rightarrow> bool" where
  "nonzero_digit c \<longleftrightarrow> is_digit c \<and> c \<noteq> CHR ''0''"

definition re_d :: "string \<Rightarrow> (string \<times> string) list" where
  "re_d s =
     (case s of
        a # b # r \<Rightarrow>
          (if a = CHR ''3'' \<and> (b = CHR ''0'' \<or> b = CHR ''1'') then [([a, b], r)] else []) @
          (if (a = CHR ''1'' \<or> a = CHR ''2'') \<and> is_digit b then [([a, b], r)] else []) @
          (if a = CHR ''0'' \<and> nonzero_digit b then [([a, b], r)] else [])
      | _ \<Rightarrow> []) @
     (case s of a # r \<Rightarrow> (if nonzero_digit a then [([a], r)] else []) | _ \<Rightarrow> []) @
     (case s of
        a # b # r \<Rightarrow> (if a = CHR '' '' \<and> nonzero_digit b then [([a, b], r)] else [])
      | _ \<Rightarrow> [])"

definition re_m :: "string \<Rightarrow> (string \<times> string) list" where
  "re_m s =
     (case s of
        a # b # r \<Rightarrow>
          (if a = CHR ''1'' \<and> (b = CHR ''0'' \<or> b = CHR ''1'' \<or> b = CHR ''2'') then [([a, b], r)]
           else []) @
          (if a = CHR ''0'' \<and> nonzero_digit b then [([a, b], r)] else [])
      | _ \<Rightarrow> []) @
     (case s of a # r \<Rightarrow> (if nonzero_digit a then [([a], r)] else []) | _ \<Rightarrow> [])"

definition re_Y :: "string \<Rightarrow> (string \<times> string) list" where
  "re_Y s =
     (case s of
        a # b # c # d # r \<Rightarrow>
          (if is_digit a \<and> is_digit b \<and> is_digit c \<and> is_digit d then [([a, b, c, d], r)] else [])
      | _ \<Rightarrow> [])"

definition re_dot :: "string \<Rightarrow> string list" where
  "re_dot s = (case s of a # r \<Rightarrow> (if a = CHR ''.'' then [r] else []) | _ \<Rightarrow> [])"

definition strptime_regex :: "string \<Rightarrow> ((string \<times> string \<times> string) \<times> string) list" where
  "strptime_regex s =
     [((d, m, y), r5). (d, r1) \<leftarrow> re_d s, r2 \<leftarrow> re_dot r1, (m, r3) \<leftarrow> re_m r2,
                       r4 \<leftarrow> re_dot r3, (y, r5) \<leftarrow> re_Y r4]"

text \<open>\<^verbatim>\<open>int(s)\<close> on a matched group: leading blanks are skipped.\<close>

definition py_int :: "string \<Rightarrow> nat" where
  "py_int s = int_of_digits (dropWhile (\<lambda>c. c = CHR '' '') s)"

text \<open>
  The texts of the two parsing errors are abridged (the library quotes the input in
  them); \<^verbatim>\<open>Birthday.__init__\<close> replaces every one of them by its own message.
\<close>

definition strptime_dmY :: "string \<Rightarrow> exn + date" where
  "strptime_dmY s =
     (case strptime_regex s of
        [] \<Rightarrow> Inl (ValueError ''time data does not match format'')
      | ((d, m, y), rest) # other \<Rightarrow>
          (if rest \<noteq> [] then Inl (ValueError (''unconverted data remains: '' @ rest))
           else date_new (py_int y) (py_int m) (py_int d)))"

datatype Birthday = Birthday (birthday_value: date)

text \<open>
  \<^verbatim>\<open>Birthday.__init__\<close>: the \<^verbatim>\<open>except ValueError\<close> clause catches what the parser and the
  date constructor raise and raises the class's own message.
\<close>

definition Birthday_init :: "string \<Rightarrow> exn + Birthday" where
  "Birthday_init v =
     (case strptime_dmY v of
        Inl (ValueError m) \<Rightarrow> Inl (ValueError ''Invalid date format. Use DD.MM.YYYY'')
      | Inl e \<Rightarrow> Inl e
      | Inr dt \<Rightarrow> Inr (Birthday dt))"

definition Birthday_str :: "Birthday \<Rightarrow> string" where
  "Birthday_str b = strftime_dmY (birthday_value b)"

section \<open>Contact records\<close>

record Record =
  name :: Name
  phones :: "Phone list"
  birthday :: "Birthday option"

text \<open>
  A method that mutates its object takes the object and returns it updated; one that
  can raise returns the outcome together with the object as the raise leaves it.
\<close>

definition Record_init :: "string \<Rightarrow> exn + Record" where
  "Record_init n =
     (case Name_init n of
        Inl e \<Rightarrow> Inl e
      | Inr nm \<Rightarrow> Inr \<lparr>name = nm, phones = [], birthday = None\<rparr>)"

definition add_phone :: "string \<Rightarrow> Record \<Rightarrow> (exn + unit) \<times> Record" where
  "add_phone phone self =
     (case Phone_init phone of
        Inl e \<Rightarrow> (Inl e, self)
      | Inr p \<Rightarrow> (Inr (), self\<lparr>phones := phones self @ [p]\<rparr>))"

text \<open>\<^verbatim>\<open>next((p for p in self.phones if p.value == phone), None)\<close>\<close>

definition first_phone :: "string \<Rightarrow> Phone list \<Rightarrow> Phone option" where
  "first_phone v ps = List.find (\<lambda>p. phone_value p = v) ps"

text \<open>\<^verbatim>\<open>list.remove\<close> deletes the first occurrence of the phone found.\<close>

definition remove_phone :: "string \<Rightarrow> Record \<Rightarrow> Record" where
  "remove_phone phone self =
     (case first_phone phone (phones self) of
        None \<Rightarrow> self
      | Some p \<Rightarrow> self\<lparr>phones := remove1 p (phones self)\<rparr>)"

definition edit_phone :: "string \<Rightarrow> string \<Rightarrow> Record \<Rightarrow> (exn + unit) \<times> Record" where
  "edit_phone old_phone new_phone self =
     (case first_phone old_phone (phones self) of
        None \<Rightarrow> (Inr (), self)
      | Some p \<Rightarrow> add_phone new_phone (remove_phone old_phone self))"

definition find_phone :: "string \<Rightarrow> Record \<Rightarrow> string option" where
  "find_phone phone self = map_option phone_value (first_phone phone (phones self))"

text \<open>The method \<^verbatim>\<open>Record.add_birthday\<close>; the handler of the same name comes later.\<close>

definition Record_add_birthday :: "Birthday \<Rightarrow> Record \<Rightarrow> Record" where
  "Record_add_birthday b self = self\<lparr>birthday := Some b\<rparr>"

fun join :: "string \<Rightarrow> string list \<Rightarrow> string" where
  "join sep [] = []"
| "join sep [x] = x"
| "join sep (x # y # ys) = x @ sep @ join sep (y # ys)"

definition Record_str :: "Record \<Rightarrow> string" where
  "Record_str self =
     ''Contact name: '' @ name_value (name self) @ '', phones: '' @
     join ''; '' (map phone_value (phones self)) @ '', birthday: '' @
     (case birthday self of None \<Rightarrow> ''No birthday'' | Some b \<Rightarrow> Birthday_str b)"

section \<open>The address book\<close>

text \<open>
  \<^verbatim>\<open>AddressBook.data\<close> is a dict, which iterates in insertion order: an association
  list with one pair for each key. Storing under a present key keeps the pair's place,
  storing under a new key appends.
\<close>

type_synonym AddressBook = "(string \<times> Record) list"

text \<open>
  \<open>contains n book\<close> is \<^verbatim>\<open>n in book.data\<close>; \<open>find_rec\<close> and \<open>delete_rec\<close> are the methods
  \<^verbatim>\<open>find\<close> and \<^verbatim>\<open>delete\<close>.
\<close>

definition contains :: "string \<Rightarrow> AddressBook \<Rightarrow> bool" where
  "contains n book \<longleftrightarrow> map_of book n \<noteq> None"

definition add_record :: "Record \<Rightarrow> AddressBook \<Rightarrow> AddressBook" where
  "add_record r book = AList.update (name_value (name r)) r book"

definition find_rec :: "string \<Rightarrow> AddressBook \<Rightarrow> Record option" where
  "find_rec n book = map_of book n"

definition delete_rec :: "string \<Rightarrow> AddressBook \<Rightarrow> AddressBook" where
  "delete_rec n book = (if contains n book then AList.delete n book else book)"

record entry =
  entry_name :: string
  entry_birthday :: string
  days_until_birthday :: int

text \<open>Lines 116 to 118: the birthday moved into this year, and into the next if it has passed.\<close>

definition next_birthday :: "date \<Rightarrow> date \<Rightarrow> exn + date" where
  "next_birthday today b =
     (case replace_year b (year today) of
        Inl e \<Rightarrow> Inl e
      | Inr nb \<Rightarrow> (if date_less nb today then replace_year nb (year today + 1) else Inr nb))"

text \<open>The loop over \<^verbatim>\<open>self.data.values()\<close>; a raise ends it and loses the list built so far.\<close>

fun upcoming_loop :: "date \<Rightarrow> Record list \<Rightarrow> entry list \<Rightarrow> exn + entry list" where
  "upcoming_loop today [] upcoming = Inr upcoming"
| "upcoming_loop today (r # rs) upcoming =
     (case birthday r of
        None \<Rightarrow> upcoming_loop today rs upcoming
      | Some b \<Rightarrow>
          (case next_birthday today (birthday_value b) of
             Inl e \<Rightarrow> Inl e
           | Inr nb \<Rightarrow>
               (let d = days_between nb today in
                upcoming_loop today rs
                  (if 0 \<le> d \<and> d \<le> 6 then
                     upcoming @ [\<lparr>entry_name = name_value (name r),
                                   entry_birthday = isoformat nb,
                                   days_until_birthday = d\<rparr>]
                   else upcoming))))"

text \<open>\<^verbatim>\<open>datetime.now().date()\<close> is the parameter \<open>today\<close>.\<close>

definition get_upcoming_birthdays :: "date \<Rightarrow> AddressBook \<Rightarrow> exn + entry list" where
  "get_upcoming_birthdays today book = upcoming_loop today (map snd book) []"

definition AddressBook_str :: "AddressBook \<Rightarrow> string" where
  "AddressBook_str book = join [newline] (map (\<lambda>kv. Record_str (snd kv)) book)"

text \<open>
  \<^verbatim>\<open>save_data\<close> and \<^verbatim>\<open>load_data\<close>: the file holds the pickled book, or does not exist.
  Pickling is taken to give back the book that was saved.
\<close>

definition save_data :: "AddressBook \<Rightarrow> AddressBook option" where
  "save_data book = Some book"

definition load_data :: "AddressBook option \<Rightarrow> AddressBook" where
  "load_data file = (case file of None \<Rightarrow> [] | Some book \<Rightarrow> book)"

section \<open>Command handlers\<close>

text \<open>
  A handler takes the argument list and the book and returns its outcome with the book
  as it leaves it. The decorator \<^verbatim>\<open>input_error\<close> turns a caught exception into its text;
  an exception that is not an \<^verbatim>\<open>Exception\<close> passes through.
\<close>

definition input_error ::
  "('a \<Rightarrow> 's \<Rightarrow> (exn + string) \<times> 's) \<Rightarrow> 'a \<Rightarrow> 's \<Rightarrow> (exn + string) \<times> 's" where
  "input_error func args book =
     (case func args book of
        (Inl e, book') \<Rightarrow> (if is_Exception e then (Inr (str_exn e), book') else (Inl e, book'))
      | (Inr s, book') \<Rightarrow> (Inr s, book'))"

text \<open>
  What unpacking a list of \<open>got\<close> items into \<open>expected\<close> names raises when the numbers
  differ (the texts of CPython 3.8 to 3.13).
\<close>

definition unpack_error :: "nat \<Rightarrow> nat \<Rightarrow> exn" where
  "unpack_error expected got =
     (if got < expected then
        ValueError (''not enough values to unpack (expected '' @ str_nat expected @
                    '', got '' @ str_nat got @ '')'')
      else ValueError (''too many values to unpack (expected '' @ str_nat expected @ '')''))"

text \<open>A record of the book mutated in place: the pair under its key keeps its position.\<close>

definition store :: "string \<Rightarrow> Record \<Rightarrow> AddressBook \<Rightarrow> AddressBook" where
  "store n r book = AList.update n r book"

text \<open>
  For each handler, \<open>f_body\<close> is the function as written and \<open>f\<close> the decorated one that
  the module exports.
\<close>

definition add_body :: "string list \<Rightarrow> AddressBook \<Rightarrow> (exn + string) \<times> AddressBook" where
  "add_body args book =
     (if length args < 2 then (Inr ''Usage: add [name] [phone]'', book)
      else
        (case args of
           [n, phone] \<Rightarrow>
             (case map_of book n of
                Some r \<Rightarrow>
                  (case add_phone phone r of
                     (Inl e, r') \<Rightarrow> (Inl e, store n r' book)
                   | (Inr u, r') \<Rightarrow>
                       (Inr (''Phone '' @ phone @ '' added to '' @ n @ ''.''), store n r' book))
              | None \<Rightarrow>
                  (case Record_init n of
                     Inl e \<Rightarrow> (Inl e, book)
                   | Inr r \<Rightarrow>
                       (case add_phone phone r of
                          (Inl e, r') \<Rightarrow> (Inl e, book)
                        | (Inr u, r') \<Rightarrow>
                            (Inr (''Contact '' @ n @ '' with phone '' @ phone @ '' added.''),
                             add_record r' book))))
         | _ \<Rightarrow> (Inl (unpack_error 2 (length args)), book)))"

definition add :: "string list \<Rightarrow> AddressBook \<Rightarrow> (exn + string) \<times> AddressBook" where
  "add = input_error add_body"

definition change_body :: "string list \<Rightarrow> AddressBook \<Rightarrow> (exn + string) \<times> AddressBook" where
  "change_body args book =
     (if length args < 3 then (Inr ''Usage: change [name] [old phone] [new phone]'', book)
      else
        (case args of
           [n, old_phone, new_phone] \<Rightarrow>
             (case find_rec n book of
                Some r \<Rightarrow>
                  (case edit_phone old_phone new_phone r of
                     (Inl e, r') \<Rightarrow> (Inl e, store n r' book)
                   | (Inr u, r') \<Rightarrow>
                       (Inr (''Phone '' @ old_phone @ '' changed to '' @ new_phone @ '' for '' @
                             n @ ''.''),
                        store n r' book))
              | None \<Rightarrow> (Inr ''Contact not found.'', book))
         | _ \<Rightarrow> (Inl (unpack_error 3 (length args)), book)))"

definition change :: "string list \<Rightarrow> AddressBook \<Rightarrow> (exn + string) \<times> AddressBook" where
  "change = input_error change_body"

definition phone_body :: "string list \<Rightarrow> AddressBook \<Rightarrow> (exn + string) \<times> AddressBook" where
  "phone_body args book =
     (case args of
        [] \<Rightarrow> (Inl (IndexError ''list index out of range''), book)
      | n # rest \<Rightarrow>
          (case find_rec n book of
             Some r \<Rightarrow>
               (Inr (''Phones for '' @ n @ '': '' @ join '', '' (map phone_value (phones r))),
                book)
           | None \<Rightarrow> (Inr ''Contact not found.'', book)))"

definition phone :: "string list \<Rightarrow> AddressBook \<Rightarrow> (exn + string) \<times> AddressBook" where
  "phone = input_error phone_body"

definition all_contacts_body ::
  "string list \<Rightarrow> AddressBook \<Rightarrow> (exn + string) \<times> AddressBook" where
  "all_contacts_body args book =
     (if book \<noteq> [] then (Inr (AddressBook_str book), book)
      else (Inr ''Address book is empty.'', book))"

definition all_contacts :: "string list \<Rightarrow> AddressBook \<Rightarrow> (exn + string) \<times> AddressBook" where
  "all_contacts = input_error all_contacts_body"

definition add_birthday_body ::
  "string list \<Rightarrow> AddressBook \<Rightarrow> (exn + string) \<times> AddressBook" where
  "add_birthday_body args book =
     (case args of
        [n, date_str] \<Rightarrow>
          (case map_of book n of
             None \<Rightarrow> (Inr ''Contact not found.'', book)
           | Some r \<Rightarrow>
               (case Birthday_init date_str of
                  Inl (ValueError m) \<Rightarrow> (Inr m, book)
                | Inl e \<Rightarrow> (Inl e, book)
                | Inr b \<Rightarrow>
                    (Inr (''Birthday added for '' @ n @ ''.''),
                     store n (Record_add_birthday b r) book)))
      | _ \<Rightarrow> (Inl (unpack_error 2 (length args)), book))"

definition add_birthday :: "string list \<Rightarrow> AddressBook \<Rightarrow> (exn + string) \<times> AddressBook" where
  "add_birthday = input_error add_birthday_body"

definition show_birthday_body ::
  "string list \<Rightarrow> AddressBook \<Rightarrow> (exn + string) \<times> AddressBook" where
  "show_birthday_body args book =
     (case args of
        [] \<Rightarrow> (Inl (IndexError ''list index out of range''), book)
      | n # rest \<Rightarrow>
          (case map_of book n of
             None \<Rightarrow> (Inr ''Contact not found.'', book)
           | Some r \<Rightarrow>
               (case birthday r of
                  Some b \<Rightarrow> (Inr (n @ [CHR 0x27] @ ''s birthday is '' @ Birthday_str b), book)
                | None \<Rightarrow> (Inr (n @ '' has no birthday set.''), book))))"

definition show_birthday :: "string list \<Rightarrow> AddressBook \<Rightarrow> (exn + string) \<times> AddressBook" where
  "show_birthday = input_error show_birthday_body"

definition birthdays_body ::
  "date \<Rightarrow> string list \<Rightarrow> AddressBook \<Rightarrow> (exn + string) \<times> AddressBook" where
  "birthdays_body today args book =
     (case get_upcoming_birthdays today book of
        Inl e \<Rightarrow> (Inl e, book)
      | Inr upcoming \<Rightarrow>
          (if upcoming = [] then (Inr ''No upcoming birthdays in the next 7 days.'', book)
           else
             (Inr (join [newline]
                     (map (\<lambda>e. ''Name: '' @ entry_name e @ '', Birthday: '' @ entry_birthday e)
                        upcoming)),
              book)))"

definition birthdays ::
  "date \<Rightarrow> string list \<Rightarrow> AddressBook \<Rightarrow> (exn + string) \<times> AddressBook" where
  "birthdays today = input_error (birthdays_body today)"

section \<open>Sessions\<close>

text \<open>
  What a session does to the book: the book's own methods, the methods of a record that
  \<^verbatim>\<open>find\<close> returned (as \<^verbatim>\<open>main\<close> does with \<^verbatim>\<open>john.edit_phone\<close>), the command handlers, and
  saving the book at the end of one run and loading it at the start of the next.
\<close>

datatype operation =
    Op_add_record Record
  | Op_find string
  | Op_delete string
  | Op_add_phone string string
  | Op_remove_phone string string
  | Op_edit_phone string string string
  | Op_add_birthday string Birthday
  | Cmd_add "string list"
  | Cmd_change "string list"
  | Cmd_phone "string list"
  | Cmd_all "string list"
  | Cmd_add_birthday "string list"
  | Cmd_show_birthday "string list"
  | Cmd_birthdays date "string list"
  | Save_and_load

definition on_found :: "string \<Rightarrow> (Record \<Rightarrow> Record) \<Rightarrow> AddressBook \<Rightarrow> AddressBook" where
  "on_found n f book = (case find_rec n book of None \<Rightarrow> book | Some r \<Rightarrow> store n (f r) book)"

fun apply_operation :: "operation \<Rightarrow> AddressBook \<Rightarrow> AddressBook" where
  "apply_operation (Op_add_record r) book = add_record r book"
| "apply_operation (Op_find n) book = book"
| "apply_operation (Op_delete n) book = delete_rec n book"
| "apply_operation (Op_add_phone n p) book = on_found n (\<lambda>r. snd (add_phone p r)) book"
| "apply_operation (Op_remove_phone n p) book = on_found n (remove_phone p) book"
| "apply_operation (Op_edit_phone n old new) book = on_found n (\<lambda>r. snd (edit_phone old new r)) book"
| "apply_operation (Op_add_birthday n b) book = on_found n (Record_add_birthday b) book"
| "apply_operation (Cmd_add args) book = snd (add args book)"
| "apply_operation (Cmd_change args) book = snd (change args book)"
| "apply_operation (Cmd_phone args) book = snd (phone args book)"
| "apply_operation (Cmd_all args) book = snd (all_contacts args book)"
| "apply_operation (Cmd_add_birthday args) book = snd (add_birthday args book)"
| "apply_operation (Cmd_show_birthday args) book = snd (show_birthday args book)"
| "apply_operation (Cmd_birthdays today args) book = snd (birthdays today args book)"
| "apply_operation Save_and_load book = load_data (save_data book)"

fun run :: "operation list \<Rightarrow> AddressBook \<Rightarrow> AddressBook" where
  "run [] book = book"
| "run (x # xs) book = run xs (apply_operation x book)"

text \<open>The invariant of the data model: a record is stored under its own name.\<close>

definition keyed_by_name :: "AddressBook \<Rightarrow> bool" where
  "keyed_by_name book \<longleftrightarrow> (\<forall>(k, r) \<in> set book. name_value (name r) = k)"

section \<open>The record of \<^verbatim>\<open>main\<close>\<close>

text \<open>Lines 228 to 231 of \<^verbatim>\<open>main\<close>: the record built for John; a raise ends the sequence.\<close>

definition john_record :: "exn + Record" where
  "john_record =
     (case Record_init ''John'' of
        Inl e \<Rightarrow> Inl e
      | Inr r0 \<Rightarrow>
          (case add_phone ''1234567890'' r0 of
             (Inl e, r1) \<Rightarrow> Inl e
           | (Inr u, r1) \<Rightarrow>
               (case add_phone ''5555555555'' r1 of
                  (Inl e, r2) \<Rightarrow> Inl e
                | (Inr u, r2) \<Rightarrow>
                    (case Birthday_init ''10.08.1990'' of
                       Inl e \<Rightarrow> Inl e
                     | Inr b \<Rightarrow> Inr (Record_add_birthday b r2)))))"

section \<open>What the decorator promises\<close>

text \<open>
  The outcome the error policy asks of a handler whose body ended as \<open>raw\<close>: the text of
  the error when the body raised, the body's own string otherwise, and the book as the
  body left it.
\<close>

definition as_text :: "(exn + string) \<times> 's \<Rightarrow> (exn + string) \<times> 's" where
  "as_text raw = (case fst raw of Inl e \<Rightarrow> Inr (str_exn e) | Inr s \<Rightarrow> Inr s, snd raw)"

section \<open>Dates as the specification writes them\<close>

text \<open>
  The specification's own notions, to compare the code with: a string in the form
  DD.MM.YYYY (two digits, a dot, two digits, a dot, four digits), the three numbers it
  denotes, and a real date of the calendar (the library's calendar starts with year 1, so
  year 0000 denotes none).
\<close>

definition dmY_form :: "string \<Rightarrow> bool" where
  "dmY_form s \<longleftrightarrow>
     length s = 10 \<and> s ! 2 = CHR ''.'' \<and> s ! 5 = CHR ''.'' \<and>
     list_all is_digit (take 2 s @ take 2 (drop 3 s) @ drop 6 s)"

definition dmY_day :: "string \<Rightarrow> nat" where
  "dmY_day s = int_of_digits (take 2 s)"

definition dmY_month :: "string \<Rightarrow> nat" where
  "dmY_month s = int_of_digits (take 2 (drop 3 s))"

definition dmY_year :: "string \<Rightarrow> nat" where
  "dmY_year s = int_of_digits (drop 6 s)"

definition real_date :: "nat \<Rightarrow> nat \<Rightarrow> nat \<Rightarrow> bool" where
  "real_date y m d \<longleftrightarrow>
     1 \<le> y \<and> 1 \<le> m \<and> m \<le> 12 \<and> 1 \<le> d \<and>
     d \<le> (if m = 2 then (if y mod 4 = 0 \<and> (y mod 100 \<noteq> 0 \<or> y mod 400 = 0) then 29 else 28)
          else if m = 4 \<or> m = 6 \<or> m = 9 \<or> m = 11 then 30
          else 31)"

section \<open>Upcoming birthdays as the specification writes them\<close>

text \<open>
  The specification's selection, to compare the loop with: the next occurrence of a
  birthday has its month and day, in this year, or in the next year when this year's date
  has passed; a record is selected when it has a birthday whose next occurrence is
  between 0 and 6 days from today.
\<close>

definition next_occurrence :: "date \<Rightarrow> date \<Rightarrow> date" where
  "next_occurrence today b =
     (if month b < month today \<or> (month b = month today \<and> day b < day today)
      then Date (year today + 1) (month b) (day b)
      else Date (year today) (month b) (day b))"

definition days_until :: "date \<Rightarrow> date \<Rightarrow> int" where
  "days_until today b = toordinal (next_occurrence today b) - toordinal today"

definition selected :: "date \<Rightarrow> Record \<Rightarrow> bool" where
  "selected today r =
     (case birthday r of
        None \<Rightarrow> False
      | Some b \<Rightarrow> 0 \<le> days_until today (birthday_value b) \<and> days_until today (birthday_value b) \<le> 6)"

definition entry_of :: "date \<Rightarrow> Record \<Rightarrow> entry" where
  "entry_of today r =
     (case birthday r of
        None \<Rightarrow> \<lparr>entry_name = name_value (name r), entry_birthday = [], days_until_birthday = 0\<rparr>
      | Some b \<Rightarrow>
          \<lparr>entry_name = name_value (name r),
           entry_birthday = isoformat (next_occurrence today (birthday_value b)),
           days_until_birthday = days_until today (birthday_value b)\<rparr>)"

text \<open>A birthday that can be moved into this year and the next: no 29th of February.\<close>

definition movable :: "date \<Rightarrow> bool" where
  "movable b \<longleftrightarrow>
     1 \<le> month b \<and> month b \<le> 12 \<and> 1 \<le> day b \<and> day b \<le> DAYS_IN_MONTH ! month b"

definition all_movable :: "AddressBook \<Rightarrow> bool" where
  "all_movable book =
     list_all (\<lambda>kv. case birthday (snd kv) of None \<Rightarrow> True | Some b \<Rightarrow> movable (birthday_value b))
       book"

section \<open>Phone validation\<close>

lemma match_digits_iff:
  "match_digits n s = Some rest \<longleftrightarrow> (\<exists>p. s = p @ rest \<and> length p = n \<and> list_all is_digit p)"
proof (induction n s rule: match_digits.induct)
  case (1 s)
  then show ?case by auto
next
  case (2 n)
  then show ?case by auto
next
  case (3 n c s)
  have split: "(\<exists>p. c # s = p @ rest \<and> length p = Suc n \<and> list_all is_digit p)
       \<longleftrightarrow> is_digit c \<and> (\<exists>q. s = q @ rest \<and> length q = n \<and> list_all is_digit q)"
  proof
    assume "\<exists>p. c # s = p @ rest \<and> length p = Suc n \<and> list_all is_digit p"
    then obtain p where p: "c # s = p @ rest" "length p = Suc n" "list_all is_digit p" by blast
    then obtain q where "p = c # q" by (cases p) auto
    with p show "is_digit c \<and> (\<exists>q. s = q @ rest \<and> length q = n \<and> list_all is_digit q)" by auto
  next
    assume "is_digit c \<and> (\<exists>q. s = q @ rest \<and> length q = n \<and> list_all is_digit q)"
    then obtain q where "is_digit c" "s = q @ rest" "length q = n" "list_all is_digit q" by blast
    then have "c # s = (c # q) @ rest \<and> length (c # q) = Suc n \<and> list_all is_digit (c # q)" by simp
    then show "\<exists>p. c # s = p @ rest \<and> length p = Suc n \<and> list_all is_digit p" by blast
  qed
  show ?case
  proof (cases "is_digit c")
    case True
    with 3 split show ?thesis by simp
  next
    case False
    with split show ?thesis by simp
  qed
qed

lemma re_match_phone_iff:
  "re_match_phone v \<longleftrightarrow> ten_digits v \<or> (\<exists>p. ten_digits p \<and> v = p @ [newline])"
proof (cases "match_digits 10 v")
  case None
  have no: "\<And>rest p. \<not> (v = p @ rest \<and> length p = 10 \<and> list_all is_digit p)"
    using None match_digits_iff [of 10 v] by (metis option.distinct(1))
  have "\<not> ten_digits v" using no [of v "[]"] by (simp add: ten_digits_def)
  moreover have "\<not> (\<exists>p. ten_digits p \<and> v = p @ [newline])"
    using no by (auto simp: ten_digits_def)
  ultimately show ?thesis using None by (simp add: re_match_phone_def)
next
  case (Some rest)
  then obtain p where p: "v = p @ rest" "length p = 10" "list_all is_digit p"
    using match_digits_iff [of 10 v rest] by blast
  show ?thesis
  proof (cases "rest = []")
    case True
    with p Some show ?thesis by (simp add: re_match_phone_def at_dollar_def ten_digits_def)
  next
    case False
    have "\<not> ten_digits v" using p False by (simp add: ten_digits_def)
    moreover have "(\<exists>q. ten_digits q \<and> v = q @ [newline]) \<longleftrightarrow> rest = [newline]"
    proof
      assume "\<exists>q. ten_digits q \<and> v = q @ [newline]"
      then obtain q where q: "ten_digits q" "v = q @ [newline]" by blast
      then have "length q = length p" using p by (simp add: ten_digits_def)
      with q p show "rest = [newline]" by (metis append_eq_append_conv)
    next
      assume "rest = [newline]"
      with p show "\<exists>q. ten_digits q \<and> v = q @ [newline]" by (auto simp: ten_digits_def)
    qed
    ultimately show ?thesis using Some False by (simp add: re_match_phone_def at_dollar_def)
  qed
qed

lemma Phone_init_cases:
  "Phone_init v = (if re_match_phone v then Inr (Phone v)
                   else Inl (ValueError ''Phone number must be 10 digits long''))"
  by (simp add: Phone_init_def validate_phone_def)

lemma Phone_init_no_newline:
  assumes "v = [] \<or> last v \<noteq> newline"
  shows "(\<exists>ph. Phone_init v = Inr ph) \<longleftrightarrow> ten_digits v"
proof -
  have "\<not> (\<exists>p. ten_digits p \<and> v = p @ [newline])" using assms by auto
  then show ?thesis unfolding Phone_init_cases re_match_phone_iff by auto
qed

lemma Phone_init_renders: "Phone_init v = Inr ph \<Longrightarrow> Phone_str ph = v"
  by (auto simp: Phone_init_cases Phone_str_def split: if_splits)

text \<open>
  C1. The claim: constructing a Phone with \<open>p\<close> succeeds exactly when \<open>p\<close> is ten decimal
  digits and nothing else, and a successful construction renders as \<open>p\<close>. The pattern's
  \<^verbatim>\<open>$\<close> also holds before a final newline, so the eleven characters of ten digits and
  a newline are accepted as a Phone, although they are not ten digits and nothing else.
  For every other string the claim holds (\<open>Phone_init_no_newline\<close>,
  \<open>Phone_init_renders\<close>, \<open>Phone_init_cases\<close>).
\<close>

theorem Phone_init_trailing_newline:
  "Phone_init (''1234567890'' @ [newline]) = Inr (Phone (''1234567890'' @ [newline]))
   \<and> \<not> ten_digits (''1234567890'' @ [newline])"
  by (simp add: Phone_init_cases re_match_phone_iff ten_digits_def is_digit_def)

section \<open>Decimal numerals\<close>

lemma str_nat_small: "n < 10 \<Longrightarrow> str_nat n = [digit_char n]"
  by (subst str_nat.simps) simp

lemma str_nat_step: "10 \<le> n \<Longrightarrow> str_nat n = str_nat (n div 10) @ [digit_char (n mod 10)]"
  by (subst str_nat.simps) simp

lemma digit_char_0: "digit_char 0 = CHR ''0''"
  by code_simp

lemma pad2_digits: "n < 100 \<Longrightarrow> pad2 n = [digit_char (n div 10), digit_char (n mod 10)]"
proof (cases "n < 10")
  case True
  then show ?thesis by (simp add: pad2_def zfill_def str_nat_small digit_char_0)
next
  case False
  assume "n < 100"
  with False have "n div 10 < 10" "10 \<le> n" by simp_all
  then show ?thesis by (simp add: pad2_def zfill_def str_nat_step str_nat_small)
qed

lemma str_nat_3digits:
  assumes "100 \<le> n" and "n < 1000"
  shows "str_nat n = [digit_char (n div 100), digit_char (n div 10 mod 10), digit_char (n mod 10)]"
proof -
  have a: "10 \<le> n" "10 \<le> n div 10" "n div 10 div 10 < 10" using assms by simp_all
  have "n div 10 div 10 = n div 100" by (simp add: div_mult2_eq)
  with a show ?thesis by (simp add: str_nat_step str_nat_small)
qed

lemma str_nat_4digits:
  assumes "1000 \<le> n" and "n < 10000"
  shows "str_nat n = [digit_char (n div 1000), digit_char (n div 100 mod 10),
                      digit_char (n div 10 mod 10), digit_char (n mod 10)]"
proof -
  have a: "10 \<le> n" "100 \<le> n div 10" "n div 10 < 1000" using assms by simp_all
  have "n div 10 div 100 = n div 1000" "n div 10 div 10 = n div 100"
    by (simp_all add: div_mult2_eq)
  with a show ?thesis by (simp add: str_nat_step [of n] str_nat_3digits)
qed

lemma pad4_digits:
  assumes "n < 10000"
  shows "pad4 n = [digit_char (n div 1000), digit_char (n div 100 mod 10),
                   digit_char (n div 10 mod 10), digit_char (n mod 10)]"
proof -
  consider "n < 10" | "10 \<le> n" "n < 100" | "100 \<le> n" "n < 1000" | "1000 \<le> n"
    by arith
  then show ?thesis
  proof cases
    case 1
    then show ?thesis
      by (simp add: pad4_def zfill_def str_nat_small digit_char_0 numeral_3_eq_3)
  next
    case 2
    then have "n div 10 < 10" by simp
    with 2 show ?thesis
      by (simp add: pad4_def zfill_def str_nat_step str_nat_small digit_char_0 numeral_2_eq_2)
  next
    case 3
    then show ?thesis
      by (simp add: pad4_def zfill_def str_nat_3digits digit_char_0)
  next
    case 4
    with assms show ?thesis by (simp add: pad4_def zfill_def str_nat_4digits)
  qed
qed

lemma digit_char_numerals:
  "digit_char 0 = CHR ''0''" "digit_char 1 = CHR ''1''" "digit_char 2 = CHR ''2''"
  "digit_char 3 = CHR ''3''" "digit_char 4 = CHR ''4''" "digit_char 5 = CHR ''5''"
  "digit_char 6 = CHR ''6''" "digit_char 7 = CHR ''7''" "digit_char 8 = CHR ''8''"
  "digit_char 9 = CHR ''9''" "digit_char (Suc 0) = CHR ''1''"
  by code_simp+

lemmas calendar_simps =
  next_birthday_def replace_year_def date_new_def days_in_month_def DAYS_IN_MONTH_def
  is_leap_def date_less_def days_between_def toordinal_def days_before_year_def
  days_before_month_def DAYS_BEFORE_MONTH_def isoformat_def pad2_digits pad4_digits
  digit_char_numerals Let_def

section \<open>Editing a phone\<close>

lemma john_record_value:
  "john_record = Inr \<lparr>name = Name ''John'', phones = [Phone ''1234567890'', Phone ''5555555555''],
       birthday = Some (Birthday (Date 1990 8 10))\<rparr>"
  by code_simp

lemma add_phone_cases:
  "add_phone p r = (if re_match_phone p then (Inr (), r\<lparr>phones := phones r @ [Phone p]\<rparr>)
                    else (Inl (ValueError ''Phone number must be 10 digits long''), r))"
  by (simp add: add_phone_def Phone_init_cases)

lemma edit_phone_found:
  assumes "first_phone old (phones r) = Some p" and "re_match_phone new"
  shows "edit_phone old new r = (Inr (), r\<lparr>phones := remove1 p (phones r) @ [Phone new]\<rparr>)"
  using assms by (simp add: edit_phone_def remove_phone_def add_phone_cases)

lemma first_phone_Some: "first_phone v ps = Some p \<Longrightarrow> p \<in> set ps \<and> phone_value p = v"
  by (auto simp: first_phone_def find_Some_iff)

lemma edit_phone_count:
  assumes "first_phone old (phones r) = Some p" and "re_match_phone new"
  shows "length (phones (snd (edit_phone old new r))) = length (phones r)"
proof -
  have "p \<in> set (phones r)" using assms(1) first_phone_Some by blast
  then have "length (remove1 p (phones r)) = length (phones r) - 1"
    by (simp add: length_remove1)
  moreover have "length (phones r) > 0" using \<open>p \<in> set (phones r)\<close> by (cases "phones r") auto
  ultimately show ?thesis using assms by (simp add: edit_phone_found)
qed

text \<open>
  C2. The claim: on the record built by adding phone 1234567890, then phone 5555555555,
  then birthday 10.08.1990, \<^verbatim>\<open>edit_phone("1234567890","1112223333")\<close> leaves the phones
  1112223333, 5555555555 in this order (replacement in place). The method removes the old
  phone and appends the new one, so the record holds 5555555555, 1112223333: the count is
  kept (\<open>edit_phone_count\<close>), the order is not. The comment at line 252 of the source
  expects the order of the claim.
\<close>

theorem edit_phone_appends:
  "john_record = Inr \<lparr>name = Name ''John'', phones = [Phone ''1234567890'', Phone ''5555555555''],
       birthday = Some (Birthday (Date 1990 8 10))\<rparr>
   \<and> edit_phone ''1234567890'' ''1112223333''
        \<lparr>name = Name ''John'', phones = [Phone ''1234567890'', Phone ''5555555555''],
         birthday = Some (Birthday (Date 1990 8 10))\<rparr>
     = (Inr (), \<lparr>name = Name ''John'', phones = [Phone ''5555555555'', Phone ''1112223333''],
         birthday = Some (Birthday (Date 1990 8 10))\<rparr>)"
  by code_simp

section \<open>The handler \<^verbatim>\<open>add\<close>\<close>

lemma str_nat_2: "str_nat 2 = ''2''"
  by code_simp

lemma str_nat_3: "str_nat 3 = ''3''"
  by code_simp

lemma unpack_error_too_many:
  "2 < got \<Longrightarrow> unpack_error 2 got = ValueError ''too many values to unpack (expected 2)''"
  by (simp add: unpack_error_def str_nat_2)

lemma add_body_short:
  "length args < 2 \<Longrightarrow> add_body args book = (Inr ''Usage: add [name] [phone]'', book)"
  by (simp add: add_body_def)

lemma add_body_long:
  assumes "2 < length args"
  shows "add_body args book = (Inl (ValueError ''too many values to unpack (expected 2)''), book)"
  using assms by (auto simp: add_body_def unpack_error_too_many split: list.splits)

lemma add_body_two:
  "add_body [n, p] book =
     (case map_of book n of
        Some r \<Rightarrow>
          (case add_phone p r of
             (Inl e, r') \<Rightarrow> (Inl e, store n r' book)
           | (Inr u, r') \<Rightarrow> (Inr (''Phone '' @ p @ '' added to '' @ n @ ''.''), store n r' book))
      | None \<Rightarrow>
          (case Record_init n of
             Inl e \<Rightarrow> (Inl e, book)
           | Inr r \<Rightarrow>
               (case add_phone p r of
                  (Inl e, r') \<Rightarrow> (Inl e, book)
                | (Inr u, r') \<Rightarrow>
                    (Inr (''Contact '' @ n @ '' with phone '' @ p @ '' added.''),
                     add_record r' book))))"
  by (simp add: add_body_def)

lemma store_same: "map_of book n = Some r \<Longrightarrow> store n r book = book"
  by (simp add: store_def update_triv)

lemma Record_init_cases:
  "Record_init n = (if n = [] then Inl (ValueError ''Name cannot be empty'')
                    else Inr \<lparr>name = Name n, phones = [], birthday = None\<rparr>)"
  by (simp add: Record_init_def Name_init_def)

text \<open>
  C7, as the claim states it: for every argument list whose length is not exactly 2, the
  handler \<^verbatim>\<open>add\<close> returns the usage message. The guard of the handler is
  \<^verbatim>\<open>len(args) < 2\<close>; three arguments pass it, the unpacking raises, and the handler
  returns the text of that error.
\<close>

theorem add_three_arguments_counterexample:
  "\<not> (fst (add [''John'', ''1234567890'', ''extra''] []) = Inr ''Usage: add [name] [phone]'')"
  by (simp add: add_def input_error_def add_body_long)

text \<open>
  C7, amended: for every argument list whose length is not 2 the handler \<^verbatim>\<open>add\<close> leaves the
  book unchanged; with fewer than two arguments it returns the usage message, with more
  than two it returns the text of the unpacking error.
\<close>

theorem add_wrong_arity:
  assumes "length args \<noteq> 2"
  shows "snd (add args book) = book
       \<and> (length args < 2 \<longrightarrow> fst (add args book) = Inr ''Usage: add [name] [phone]'')
       \<and> (2 < length args \<longrightarrow>
            fst (add args book) = Inr ''too many values to unpack (expected 2)'')"
proof (cases "length args < 2")
  case True
  then show ?thesis by (simp add: add_def input_error_def add_body_short)
next
  case False
  with assms have "2 < length args" by simp
  then show ?thesis by (simp add: add_def input_error_def add_body_long)
qed

theorem add_wrong_arity_witness:
  "length [''John''] \<noteq> 2 \<and> length [''John'', ''1234567890'', ''extra''] \<noteq> 2
   \<and> add [''John''] [] = (Inr ''Usage: add [name] [phone]'', [])
   \<and> add [''John'', ''1234567890'', ''extra''] [] = (Inr ''too many values to unpack (expected 2)'', [])"
  using add_wrong_arity [of "[''John'']" "[]"]
        add_wrong_arity [of "[''John'', ''1234567890'', ''extra'']" "[]"]
  by (simp add: prod_eq_iff)

text \<open>
  For every string \<open>p\<close> that the pattern of the phone validation rejects, the handler
  \<^verbatim>\<open>add\<close> called with \<open>[n, p]\<close> returns the message of the validation error and the
  book it was given: no record is created when \<open>n\<close> is absent, and the record under \<open>n\<close>
  keeps its phones when \<open>n\<close> is present. The error is that of the phone, except for an
  empty name that is not a key, where the name is validated first and rejected.
\<close>

lemma add_rejected_phone_atomic:
  assumes "\<not> re_match_phone p"
  shows "add [n, p] book =
           (Inr (if n = [] \<and> \<not> contains n book then ''Name cannot be empty''
                 else ''Phone number must be 10 digits long''), book)"
proof (cases "map_of book n")
  case None
  then show ?thesis using assms
    by (simp add: add_def input_error_def add_body_two Record_init_cases add_phone_cases contains_def)
next
  case (Some r)
  then show ?thesis using assms
    by (simp add: add_def input_error_def add_body_two add_phone_cases contains_def store_same)
qed

text \<open>
  The strings that are not ten digits and are rejected all the same: those that do not
  end in a newline.
\<close>

lemma add_invalid_phone_without_newline:
  assumes "\<not> ten_digits p" and "p = [] \<or> last p \<noteq> newline"
  shows "add [n, p] book =
           (Inr (if n = [] \<and> \<not> contains n book then ''Name cannot be empty''
                 else ''Phone number must be 10 digits long''), book)"
proof -
  have "\<not> (\<exists>q. ten_digits q \<and> p = q @ [newline])" using assms(2) by auto
  with assms(1) have "\<not> re_match_phone p" by (simp add: re_match_phone_iff)
  then show ?thesis by (rule add_rejected_phone_atomic)
qed

lemma add_rejected_phone_examples:
  "add [''John'', ''12345''] [] = (Inr ''Phone number must be 10 digits long'', [])"
  "add [[], ''12345''] [] = (Inr ''Name cannot be empty'', [])"
  "add [''John'', ''12345'']
     [(''John'', \<lparr>name = Name ''John'', phones = [Phone ''5555555555''], birthday = None\<rparr>)]
   = (Inr ''Phone number must be 10 digits long'',
      [(''John'', \<lparr>name = Name ''John'', phones = [Phone ''5555555555''], birthday = None\<rparr>)])"
proof -
  have h: "\<not> re_match_phone ''12345''" by code_simp
  show "add [''John'', ''12345''] [] = (Inr ''Phone number must be 10 digits long'', [])"
    using add_rejected_phone_atomic [OF h, of "''John''" "[]"] by (simp add: contains_def)
  show "add [[], ''12345''] [] = (Inr ''Name cannot be empty'', [])"
    using add_rejected_phone_atomic [OF h, of "[]" "[]"] by (simp add: contains_def)
  show "add [''John'', ''12345'']
     [(''John'', \<lparr>name = Name ''John'', phones = [Phone ''5555555555''], birthday = None\<rparr>)]
   = (Inr ''Phone number must be 10 digits long'',
      [(''John'', \<lparr>name = Name ''John'', phones = [Phone ''5555555555''], birthday = None\<rparr>)])"
    using add_rejected_phone_atomic [OF h, of "''John''"
        "[(''John'', \<lparr>name = Name ''John'', phones = [Phone ''5555555555''], birthday = None\<rparr>)]"]
    by (simp add: contains_def)
qed

text \<open>
  C10. The claim: for every book, name \<open>n\<close> and string \<open>p\<close> that is not a valid phone
  (exactly ten decimal digits), the handler \<^verbatim>\<open>add\<close> called with \<open>[n, p]\<close> returns the
  validation error's message and leaves the book as it was. Ten digits followed by a
  newline are not a valid phone, and the validation accepts them: with the name absent
  the handler creates the record with this phone and reports the contact as added, with
  the name present it appends this phone to the record. For every invalid phone that does
  not end in a newline the claim holds (\<open>add_invalid_phone_without_newline\<close>).
\<close>

theorem add_newline_phone_changes_book:
  "\<not> ten_digits (''1234567890'' @ [newline])
   \<and> add [''John'', ''1234567890'' @ [newline]] []
     = (Inr (''Contact John with phone 1234567890'' @ [newline] @ '' added.''),
        [(''John'', \<lparr>name = Name ''John'', phones = [Phone (''1234567890'' @ [newline])],
                      birthday = None\<rparr>)])
   \<and> add [''John'', ''1234567890'' @ [newline]]
         [(''John'', \<lparr>name = Name ''John'', phones = [Phone ''5555555555''], birthday = None\<rparr>)]
     = (Inr (''Phone 1234567890'' @ [newline] @ '' added to John.''),
        [(''John'', \<lparr>name = Name ''John'',
                      phones = [Phone ''5555555555'', Phone (''1234567890'' @ [newline])],
                      birthday = None\<rparr>)])"
proof -
  have ok: "re_match_phone (''1234567890'' @ [newline])"
    by (simp add: re_match_phone_iff ten_digits_def is_digit_def)
  have absent: "add [''John'', ''1234567890'' @ [newline]] []
     = (Inr (''Contact John with phone 1234567890'' @ [newline] @ '' added.''),
        [(''John'', \<lparr>name = Name ''John'', phones = [Phone (''1234567890'' @ [newline])],
                      birthday = None\<rparr>)])"
    using ok
    by (simp add: add_def input_error_def add_body_two add_phone_cases Record_init_cases
        add_record_def)
  have present: "add [''John'', ''1234567890'' @ [newline]]
         [(''John'', \<lparr>name = Name ''John'', phones = [Phone ''5555555555''], birthday = None\<rparr>)]
     = (Inr (''Phone 1234567890'' @ [newline] @ '' added to John.''),
        [(''John'', \<lparr>name = Name ''John'',
                      phones = [Phone ''5555555555'', Phone (''1234567890'' @ [newline])],
                      birthday = None\<rparr>)])"
    using ok
    by (simp add: add_def input_error_def add_body_two add_phone_cases store_def)
  have "\<not> ten_digits (''1234567890'' @ [newline])" by (simp add: ten_digits_def)
  with absent present show ?thesis by simp
qed

section \<open>Handlers and errors\<close>

lemma add_phone_raises: "add_phone p r = (Inl e, r') \<Longrightarrow> is_Exception e"
  by (auto simp: add_phone_cases split: if_splits)

lemma edit_phone_raises: "edit_phone old new r = (Inl e, r') \<Longrightarrow> is_Exception e"
  by (auto simp: edit_phone_def dest: add_phone_raises split: option.splits)

lemma Record_init_raises: "Record_init n = Inl e \<Longrightarrow> is_Exception e"
  by (auto simp: Record_init_cases split: if_splits)

lemma date_new_raises: "date_new y m d = Inl e \<Longrightarrow> \<exists>t. e = ValueError t"
  by (auto simp: date_new_def split: if_splits)

lemma next_birthday_raises: "next_birthday today b = Inl e \<Longrightarrow> \<exists>t. e = ValueError t"
  by (auto simp: next_birthday_def replace_year_def dest: date_new_raises
           split: sum.splits if_splits)

lemma upcoming_loop_raises: "upcoming_loop today rs acc = Inl e \<Longrightarrow> \<exists>t. e = ValueError t"
proof (induction rs arbitrary: acc)
  case Nil
  then show ?case by simp
next
  case (Cons r rs)
  show ?case
  proof (cases "birthday r")
    case None
    with Cons show ?thesis by simp
  next
    case (Some b)
    show ?thesis
    proof (cases "next_birthday today (birthday_value b)")
      case (Inl e')
      with Some Cons.prems have "e = e'" by simp
      with Inl show ?thesis using next_birthday_raises by blast
    next
      case (Inr nb)
      with Some Cons.prems Cons.IH show ?thesis by (simp add: Let_def split: if_splits)
    qed
  qed
qed

lemma get_upcoming_birthdays_raises:
  "get_upcoming_birthdays today book = Inl e \<Longrightarrow> \<exists>t. e = ValueError t"
  unfolding get_upcoming_birthdays_def by (rule upcoming_loop_raises)

lemma strptime_dmY_raises: "strptime_dmY s = Inl e \<Longrightarrow> \<exists>t. e = ValueError t"
  by (auto simp: strptime_dmY_def dest: date_new_raises split: list.splits if_splits)

lemma Birthday_init_raises:
  "Birthday_init s = Inl e \<Longrightarrow> e = ValueError ''Invalid date format. Use DD.MM.YYYY''"
  by (auto simp: Birthday_init_def dest: strptime_dmY_raises split: sum.splits exn.splits)

lemma unpack_error_is_Exception: "is_Exception (unpack_error k n)"
  by (simp add: unpack_error_def)

lemma add_body_raises: "fst (add_body args book) = Inl e \<Longrightarrow> is_Exception e"
  by (auto simp: add_body_def unpack_error_is_Exception
           dest: add_phone_raises Record_init_raises
           split: if_splits list.splits option.splits sum.splits prod.splits)

lemma change_body_raises: "fst (change_body args book) = Inl e \<Longrightarrow> is_Exception e"
  by (auto simp: change_body_def unpack_error_is_Exception
           dest: edit_phone_raises
           split: if_splits list.splits option.splits sum.splits prod.splits)

lemma phone_body_raises: "fst (phone_body args book) = Inl e \<Longrightarrow> is_Exception e"
  by (auto simp: phone_body_def split: list.splits option.splits)

lemma all_contacts_body_raises: "fst (all_contacts_body args book) = Inl e \<Longrightarrow> is_Exception e"
  by (auto simp: all_contacts_body_def split: if_splits)

lemma add_birthday_body_raises: "fst (add_birthday_body args book) = Inl e \<Longrightarrow> is_Exception e"
  by (auto simp: add_birthday_body_def unpack_error_is_Exception
           dest: Birthday_init_raises
           split: list.splits option.splits sum.splits exn.splits)

lemma show_birthday_body_raises: "fst (show_birthday_body args book) = Inl e \<Longrightarrow> is_Exception e"
  by (auto simp: show_birthday_body_def split: list.splits option.splits)

lemma birthdays_body_raises: "fst (birthdays_body today args book) = Inl e \<Longrightarrow> is_Exception e"
  by (auto simp: birthdays_body_def dest: get_upcoming_birthdays_raises
           split: sum.splits if_splits)

lemma input_error_as_text:
  assumes "\<And>e. fst (func args book) = Inl e \<Longrightarrow> is_Exception e"
  shows "input_error func args book = as_text (func args book)
       \<and> (\<exists>s. fst (input_error func args book) = Inr s)"
proof (cases "func args book")
  case (Pair outcome book')
  show ?thesis
  proof (cases outcome)
    case (Inl e)
    with Pair assms have "is_Exception e" by simp
    with Pair Inl show ?thesis by (simp add: input_error_def as_text_def)
  next
    case (Inr s)
    with Pair show ?thesis by (simp add: input_error_def as_text_def)
  qed
qed

lemma add_as_text:
  "add args book = as_text (add_body args book) \<and> (\<exists>s. fst (add args book) = Inr s)"
  unfolding add_def by (rule input_error_as_text) (rule add_body_raises)

lemma change_as_text:
  "change args book = as_text (change_body args book) \<and> (\<exists>s. fst (change args book) = Inr s)"
  unfolding change_def by (rule input_error_as_text) (rule change_body_raises)

lemma phone_as_text:
  "phone args book = as_text (phone_body args book) \<and> (\<exists>s. fst (phone args book) = Inr s)"
  unfolding phone_def by (rule input_error_as_text) (rule phone_body_raises)

lemma all_contacts_as_text:
  "all_contacts args book = as_text (all_contacts_body args book)
   \<and> (\<exists>s. fst (all_contacts args book) = Inr s)"
  unfolding all_contacts_def by (rule input_error_as_text) (rule all_contacts_body_raises)

lemma add_birthday_as_text:
  "add_birthday args book = as_text (add_birthday_body args book)
   \<and> (\<exists>s. fst (add_birthday args book) = Inr s)"
  unfolding add_birthday_def by (rule input_error_as_text) (rule add_birthday_body_raises)

lemma show_birthday_as_text:
  "show_birthday args book = as_text (show_birthday_body args book)
   \<and> (\<exists>s. fst (show_birthday args book) = Inr s)"
  unfolding show_birthday_def by (rule input_error_as_text) (rule show_birthday_body_raises)

lemma birthdays_as_text:
  "birthdays today args book = as_text (birthdays_body today args book)
   \<and> (\<exists>s. fst (birthdays today args book) = Inr s)"
  unfolding birthdays_def by (rule input_error_as_text) (rule birthdays_body_raises)

lemma handlers_error_texts:
  "add [''John'', ''123''] [] = (Inr ''Phone number must be 10 digits long'', [])"
  "change [''John''] [] = (Inr ''Usage: change [name] [old phone] [new phone]'', [])"
  "phone [] [] = (Inr ''list index out of range'', [])"
  "add_birthday [''John''] [] = (Inr ''not enough values to unpack (expected 2, got 1)'', [])"
  "show_birthday [] [] = (Inr ''list index out of range'', [])"
  by code_simp+

text \<open>
  C6. For every argument list and every book, each of the seven handlers (\<^verbatim>\<open>add\<close>,
  \<^verbatim>\<open>change\<close>, \<^verbatim>\<open>phone\<close>, \<^verbatim>\<open>all\<close>, \<^verbatim>\<open>add-birthday\<close>, \<^verbatim>\<open>show-birthday\<close>, \<^verbatim>\<open>birthdays\<close>)
  returns a string and never raises: when its body raises an error, the handler returns
  that error's text, and otherwise the body's own string.
\<close>

theorem handlers_never_raise:
  "(add args book = as_text (add_body args book) \<and> (\<exists>s. fst (add args book) = Inr s))
 \<and> (change args book = as_text (change_body args book) \<and> (\<exists>s. fst (change args book) = Inr s))
 \<and> (phone args book = as_text (phone_body args book) \<and> (\<exists>s. fst (phone args book) = Inr s))
 \<and> (all_contacts args book = as_text (all_contacts_body args book)
      \<and> (\<exists>s. fst (all_contacts args book) = Inr s))
 \<and> (add_birthday args book = as_text (add_birthday_body args book)
      \<and> (\<exists>s. fst (add_birthday args book) = Inr s))
 \<and> (show_birthday args book = as_text (show_birthday_body args book)
      \<and> (\<exists>s. fst (show_birthday args book) = Inr s))
 \<and> (birthdays today args book = as_text (birthdays_body today args book)
      \<and> (\<exists>s. fst (birthdays today args book) = Inr s))"
  using add_as_text [of args book] change_as_text [of args book] phone_as_text [of args book]
    all_contacts_as_text [of args book] add_birthday_as_text [of args book]
    show_birthday_as_text [of args book] birthdays_as_text [of today args book]
  by blast

section \<open>The book is keyed by name\<close>

lemma set_update_cases:
  "(k', v') \<in> set (AList.update k v al) \<Longrightarrow> (k', v') = (k, v) \<or> (k', v') \<in> set al"
  by (induction al) (auto split: if_splits)

lemma keyed_by_name_update:
  assumes "keyed_by_name book" and "name_value (name r) = k"
  shows "keyed_by_name (AList.update k r book)"
  using assms unfolding keyed_by_name_def by (auto dest: set_update_cases)

lemma keyed_by_name_store:
  "keyed_by_name book \<Longrightarrow> name_value (name r) = n \<Longrightarrow> keyed_by_name (store n r book)"
  by (simp add: store_def keyed_by_name_update)

lemma keyed_by_name_add_record: "keyed_by_name book \<Longrightarrow> keyed_by_name (add_record r book)"
  by (simp add: add_record_def keyed_by_name_update)

lemma keyed_by_name_delete_rec: "keyed_by_name book \<Longrightarrow> keyed_by_name (delete_rec n book)"
  unfolding keyed_by_name_def delete_rec_def AList.delete_eq by auto

lemma keyed_by_name_lookup:
  "keyed_by_name book \<Longrightarrow> map_of book n = Some r \<Longrightarrow> name_value (name r) = n"
  unfolding keyed_by_name_def by (auto dest: map_of_SomeD)

lemma name_add_phone: "name (snd (add_phone p r)) = name r"
  by (simp add: add_phone_cases)

lemma name_remove_phone: "name (remove_phone p r) = name r"
  by (simp add: remove_phone_def split: option.splits)

lemma name_edit_phone: "name (snd (edit_phone old new r)) = name r"
  by (simp add: edit_phone_def name_add_phone name_remove_phone split: option.splits)

lemma name_Record_add_birthday: "name (Record_add_birthday b r) = name r"
  by (simp add: Record_add_birthday_def)

lemma keyed_by_name_on_found:
  assumes "keyed_by_name book" and "\<And>r. name (f r) = name r"
  shows "keyed_by_name (on_found n f book)"
proof (cases "map_of book n")
  case None
  then show ?thesis using assms by (simp add: on_found_def find_rec_def)
next
  case (Some r)
  then have "name_value (name (f r)) = n" using assms keyed_by_name_lookup by simp
  then show ?thesis using Some assms(1) by (simp add: on_found_def find_rec_def keyed_by_name_store)
qed

lemma snd_input_error: "snd (input_error func args book) = snd (func args book)"
  by (simp add: input_error_def split: prod.splits sum.splits)

lemma keyed_by_name_add:
  assumes "keyed_by_name book"
  shows "keyed_by_name (snd (add args book))"
proof -
  have "keyed_by_name (snd (add_body args book))"
  proof (cases "\<exists>n p. args = [n, p]")
    case False
    then have "snd (add_body args book) = book"
      by (auto simp: add_body_def split: list.splits)
    with assms show ?thesis by simp
  next
    case True
    then obtain n p where args: "args = [n, p]" by blast
    show ?thesis
    proof (cases "map_of book n")
      case (Some r)
      have "name_value (name (snd (add_phone p r))) = n"
        using Some assms keyed_by_name_lookup by (simp add: name_add_phone)
      then have "keyed_by_name (store n (snd (add_phone p r)) book)"
        using assms keyed_by_name_store by blast
      then show ?thesis using Some args
        by (auto simp: add_body_two split: prod.splits sum.splits)
    next
      case None
      show ?thesis
      proof (cases "Record_init n")
        case (Inl e)
        with None args assms show ?thesis by (simp add: add_body_two)
      next
        case (Inr r)
        with None args assms show ?thesis
          by (simp add: add_body_two keyed_by_name_add_record split: prod.splits sum.splits)
      qed
    qed
  qed
  then show ?thesis by (simp add: add_def snd_input_error)
qed

lemma keyed_by_name_change:
  assumes "keyed_by_name book"
  shows "keyed_by_name (snd (change args book))"
proof -
  have "keyed_by_name (snd (change_body args book))"
  proof (cases "\<exists>n old new. args = [n, old, new]")
    case False
    then have "snd (change_body args book) = book"
      by (auto simp: change_body_def split: list.splits)
    with assms show ?thesis by simp
  next
    case True
    then obtain n old new where args: "args = [n, old, new]" by blast
    show ?thesis
    proof (cases "map_of book n")
      case None
      with args assms show ?thesis by (simp add: change_body_def find_rec_def)
    next
      case (Some r)
      have "name_value (name (snd (edit_phone old new r))) = n"
        using Some assms keyed_by_name_lookup by (simp add: name_edit_phone)
      then have "keyed_by_name (store n (snd (edit_phone old new r)) book)"
        using assms keyed_by_name_store by blast
      then show ?thesis using Some args
        by (auto simp: change_body_def find_rec_def split: prod.splits sum.splits)
    qed
  qed
  then show ?thesis by (simp add: change_def snd_input_error)
qed

lemma snd_phone: "snd (phone args book) = book"
  by (simp add: phone_def snd_input_error phone_body_def split: list.splits option.splits)

lemma snd_all_contacts: "snd (all_contacts args book) = book"
  by (simp add: all_contacts_def snd_input_error all_contacts_body_def)

lemma snd_show_birthday: "snd (show_birthday args book) = book"
  by (simp add: show_birthday_def snd_input_error show_birthday_body_def
           split: list.splits option.splits)

lemma snd_birthdays: "snd (birthdays today args book) = book"
  by (simp add: birthdays_def snd_input_error birthdays_body_def split: sum.splits)

lemma keyed_by_name_add_birthday:
  assumes "keyed_by_name book"
  shows "keyed_by_name (snd (add_birthday args book))"
proof -
  have "keyed_by_name (snd (add_birthday_body args book))"
  proof (cases "\<exists>n d. args = [n, d]")
    case False
    then have "snd (add_birthday_body args book) = book"
      by (auto simp: add_birthday_body_def split: list.splits)
    with assms show ?thesis by simp
  next
    case True
    then obtain n d where args: "args = [n, d]" by blast
    show ?thesis
    proof (cases "map_of book n")
      case None
      with args assms show ?thesis by (simp add: add_birthday_body_def)
    next
      case (Some r)
      have "\<And>b. keyed_by_name (store n (Record_add_birthday b r) book)"
        using Some assms keyed_by_name_lookup keyed_by_name_store
        by (simp add: name_Record_add_birthday)
      then show ?thesis using Some args assms
        by (simp add: add_birthday_body_def split: sum.splits exn.splits)
    qed
  qed
  then show ?thesis by (simp add: add_birthday_def snd_input_error)
qed

lemma keyed_by_name_apply_operation:
  "keyed_by_name book \<Longrightarrow> keyed_by_name (apply_operation x book)"
  by (cases x)
     (simp_all add: keyed_by_name_add_record keyed_by_name_delete_rec keyed_by_name_on_found
        name_add_phone name_remove_phone name_edit_phone name_Record_add_birthday
        keyed_by_name_add keyed_by_name_change keyed_by_name_add_birthday
        snd_phone snd_all_contacts snd_show_birthday snd_birthdays load_data_def save_data_def)

lemma keyed_by_name_run: "keyed_by_name book \<Longrightarrow> keyed_by_name (run xs book)"
  by (induction xs arbitrary: book) (simp_all add: keyed_by_name_apply_operation)

text \<open>
  C8. In every book that a sequence of operations (the book's \<^verbatim>\<open>add_record\<close>, \<^verbatim>\<open>find\<close> and
  \<^verbatim>\<open>delete\<close>, the methods of a record that \<^verbatim>\<open>find\<close> returned, the seven handlers, saving
  and loading) reaches from the empty book of a first run, every stored record's name
  equals the key under which the record is stored. The invariant is also kept from any
  book that has it (\<open>keyed_by_name_run\<close>).
\<close>

theorem reachable_keyed_by_name: "keyed_by_name (run xs (load_data None))"
  by (rule keyed_by_name_run) (simp add: load_data_def keyed_by_name_def)

theorem reachable_keyed_by_name_witness:
  "run [Cmd_add [''Jane'', ''9876543210''], Cmd_add_birthday [''Jane'', ''15.08.1992''],
        Cmd_add [''John'', ''1234567890''], Op_edit_phone ''John'' ''1234567890'' ''1112223333'',
        Op_delete ''Jane'', Save_and_load] (load_data None)
     = [(''John'', \<lparr>name = Name ''John'', phones = [Phone ''1112223333''], birthday = None\<rparr>)]
   \<and> keyed_by_name
        [(''John'', \<lparr>name = Name ''John'', phones = [Phone ''1112223333''], birthday = None\<rparr>)]"
proof -
  have run_eq: "run [Cmd_add [''Jane'', ''9876543210''], Cmd_add_birthday [''Jane'', ''15.08.1992''],
        Cmd_add [''John'', ''1234567890''], Op_edit_phone ''John'' ''1234567890'' ''1112223333'',
        Op_delete ''Jane'', Save_and_load] (load_data None)
     = [(''John'', \<lparr>name = Name ''John'', phones = [Phone ''1112223333''], birthday = None\<rparr>)]"
    by code_simp
  show ?thesis
    using reachable_keyed_by_name [of "[Cmd_add [''Jane'', ''9876543210''],
        Cmd_add_birthday [''Jane'', ''15.08.1992''],
        Cmd_add [''John'', ''1234567890''], Op_edit_phone ''John'' ''1234567890'' ''1112223333'',
        Op_delete ''Jane'', Save_and_load]"]
    unfolding run_eq by simp
qed

section \<open>Adding twice under one name\<close>








section \<open>Birthdays on the 29th of February\<close>

lemma leap_then_next_not: "is_leap y \<Longrightarrow> \<not> is_leap (Suc y)"
  unfolding is_leap_def by presburger

lemma days_in_february: "days_in_month y 2 = (if is_leap y then 29 else 28)"
  by (simp add: days_in_month_def DAYS_IN_MONTH_def)

lemma february_29_new:
  "date_new y 2 29 = (if \<not> (1 \<le> y \<and> y \<le> 9999)
                        then Inl (ValueError (''year '' @ str_nat y @ '' is out of range''))
                      else if is_leap y then Inr (Date y 2 29)
                      else Inl (ValueError ''day is out of range for month''))"
  by (simp add: date_new_def days_in_february)

lemma next_birthday_leap_day:
  assumes "month b = 2" and "day b = 29"
    and "\<not> is_leap (year today) \<or> date_less (Date (year today) 2 29) today"
  shows "\<exists>t. next_birthday today b = Inl (ValueError t)"
proof (cases "is_leap (year today)")
  case False
  then show ?thesis using assms(1,2)
    by (simp add: next_birthday_def replace_year_def february_29_new)
next
  case True
  with assms(3) have passed: "date_less (Date (year today) 2 29) today" by simp
  have "\<not> is_leap (Suc (year today))" using True by (rule leap_then_next_not)
  then show ?thesis using assms(1,2) True passed
    by (simp add: next_birthday_def replace_year_def february_29_new)
qed

lemma upcoming_loop_raise_member:
  assumes "r \<in> set rs" and "birthday r = Some b"
    and "\<exists>t. next_birthday today (birthday_value b) = Inl (ValueError t)"
  shows "\<exists>t. upcoming_loop today rs acc = Inl (ValueError t)"
  using assms(1)
proof (induction rs arbitrary: acc)
  case Nil
  then show ?case by simp
next
  case (Cons x rs)
  show ?case
  proof (cases "x = r")
    case True
    with assms(2,3) show ?thesis by auto
  next
    case False
    with Cons.prems have mem: "r \<in> set rs" by simp
    show ?thesis
    proof (cases "birthday x")
      case None
      then show ?thesis using Cons.IH [OF mem] by simp
    next
      case (Some bx)
      show ?thesis
      proof (cases "next_birthday today (birthday_value bx)")
        case (Inl e)
        then obtain t where "e = ValueError t" using next_birthday_raises by blast
        with Some Inl show ?thesis by simp
      next
        case (Inr nb)
        then show ?thesis using Some Cons.IH [OF mem] by (simp add: Let_def)
      qed
    qed
  qed
qed

lemma leap_day_examples:
  "get_upcoming_birthdays (Date 2023 2 27)
     [(''John'', \<lparr>name = Name ''John'', phones = [], birthday = Some (Birthday (Date 2000 2 29))\<rparr>)]
   = Inl (ValueError ''day is out of range for month'')"
  "get_upcoming_birthdays (Date 2024 3 5)
     [(''John'', \<lparr>name = Name ''John'', phones = [], birthday = Some (Birthday (Date 2000 2 29))\<rparr>)]
   = Inl (ValueError ''day is out of range for month'')"
  by (simp_all add: get_upcoming_birthdays_def calendar_simps)

text \<open>
  C9. When a stored record's birthday is the 29th of February and the year it is moved
  into is not a leap year (this year is not a leap year, or it is one and the 29th of
  February has passed, so that the date is moved into next year), \<^verbatim>\<open>get_upcoming_birthdays\<close>
  raises a \<^verbatim>\<open>ValueError\<close> instead of returning a list: the replacement of the year fails.
\<close>

theorem leap_day_birthday_raises:
  assumes "(k, r) \<in> set book" and "birthday r = Some b"
    and "month (birthday_value b) = 2" and "day (birthday_value b) = 29"
    and "\<not> is_leap (year today) \<or> date_less (Date (year today) 2 29) today"
  shows "\<exists>t. get_upcoming_birthdays today book = Inl (ValueError t)"
proof -
  have mem: "r \<in> set (map snd book)" using assms(1) by force
  have raises: "\<exists>t. next_birthday today (birthday_value b) = Inl (ValueError t)"
    using assms(3,4,5) by (rule next_birthday_leap_day)
  show ?thesis
    unfolding get_upcoming_birthdays_def
    using mem assms(2) raises by (rule upcoming_loop_raise_member)
qed

theorem leap_day_birthday_raises_witness:
  "(''John'', \<lparr>name = Name ''John'', phones = [], birthday = Some (Birthday (Date 2000 2 29))\<rparr>)
     \<in> set [(''John'', \<lparr>name = Name ''John'', phones = [],
                          birthday = Some (Birthday (Date 2000 2 29))\<rparr>)]
   \<and> \<not> is_leap (year (Date 2023 2 27))
   \<and> (\<exists>t. get_upcoming_birthdays (Date 2023 2 27)
         [(''John'', \<lparr>name = Name ''John'', phones = [],
                       birthday = Some (Birthday (Date 2000 2 29))\<rparr>)] = Inl (ValueError t))
   \<and> is_leap (year (Date 2024 3 5)) \<and> date_less (Date (year (Date 2024 3 5)) 2 29) (Date 2024 3 5)
   \<and> (\<exists>t. get_upcoming_birthdays (Date 2024 3 5)
         [(''John'', \<lparr>name = Name ''John'', phones = [],
                       birthday = Some (Birthday (Date 2000 2 29))\<rparr>)] = Inl (ValueError t))"
proof -
  let ?r = "\<lparr>name = Name ''John'', phones = [], birthday = Some (Birthday (Date 2000 2 29))\<rparr>"
  have m: "(''John'', ?r) \<in> set [(''John'', ?r)]" by simp
  have b: "birthday ?r = Some (Birthday (Date 2000 2 29))" by simp
  have mo: "month (birthday_value (Birthday (Date 2000 2 29))) = 2" by simp
  have da: "day (birthday_value (Birthday (Date 2000 2 29))) = 29" by simp
  have y1: "\<not> is_leap (year (Date 2023 2 27))" by (simp add: is_leap_def)
  have y2: "is_leap (year (Date 2024 3 5))" by (simp add: is_leap_def)
  have p2: "date_less (Date (year (Date 2024 3 5)) 2 29) (Date 2024 3 5)"
    by (simp add: date_less_def)
  have c1: "\<not> is_leap (year (Date 2023 2 27))
            \<or> date_less (Date (year (Date 2023 2 27)) 2 29) (Date 2023 2 27)"
    using y1 by simp
  have c2: "\<not> is_leap (year (Date 2024 3 5))
            \<or> date_less (Date (year (Date 2024 3 5)) 2 29) (Date 2024 3 5)"
    using p2 by simp
  show ?thesis
    using m y1 y2 p2 leap_day_birthday_raises [OF m b mo da c1]
      leap_day_birthday_raises [OF m b mo da c2]
    by blast
qed

section \<open>Birthdays: parsing and rendering\<close>

lemma digit_val_bound: "is_digit c \<Longrightarrow> digit_val c \<le> 9"
  unfolding is_digit_def digit_val_def by arith

lemma digit_eq_iff:
  assumes "is_digit a" and "is_digit b"
  shows "a = b \<longleftrightarrow> digit_val a = digit_val b"
proof -
  have "digit_val a = digit_val b \<longleftrightarrow> (of_char a :: nat) = of_char b"
    using assms unfolding is_digit_def digit_val_def by arith
  then show ?thesis by simp
qed

lemma is_digit_numerals:
  "is_digit (CHR ''0'')" "is_digit (CHR ''1'')" "is_digit (CHR ''2'')" "is_digit (CHR ''3'')"
  by (simp_all add: is_digit_def)

lemma digit_val_numerals:
  "digit_val (CHR ''0'') = 0" "digit_val (CHR ''1'') = 1" "digit_val (CHR ''2'') = 2"
  "digit_val (CHR ''3'') = 3"
  by (simp_all add: digit_val_def)

lemma digit_is:
  assumes "is_digit a"
  shows "a = CHR ''0'' \<longleftrightarrow> digit_val a = 0" "a = CHR ''1'' \<longleftrightarrow> digit_val a = 1"
    "a = CHR ''2'' \<longleftrightarrow> digit_val a = 2" "a = CHR ''3'' \<longleftrightarrow> digit_val a = 3"
  using assms digit_eq_iff [of a] is_digit_numerals digit_val_numerals by simp_all

lemma digit_not_blank: "is_digit a \<Longrightarrow> a \<noteq> CHR '' ''" "is_digit a \<Longrightarrow> a \<noteq> CHR ''.''"
  by (auto simp: is_digit_def)

lemma digit_char_digit_val: "is_digit a \<Longrightarrow> digit_char (digit_val a) = a"
  by (simp add: is_digit_def digit_char_def digit_val_def)

lemma re_d_two_digits:
  assumes "is_digit a" and "is_digit b"
  shows "re_d (a # b # r) =
           (if 1 \<le> 10 * digit_val a + digit_val b \<and> 10 * digit_val a + digit_val b \<le> 31
            then [([a, b], r)] else []) @
           (if digit_val a \<noteq> 0 then [([a], b # r)] else [])"
  using digit_val_bound [OF assms(1)] digit_val_bound [OF assms(2)]
  by (auto simp: re_d_def nonzero_digit_def assms digit_is [OF assms(1)] digit_is [OF assms(2)]
        digit_not_blank [OF assms(1)])

lemma re_m_two_digits:
  assumes "is_digit a" and "is_digit b"
  shows "re_m (a # b # r) =
           (if 1 \<le> 10 * digit_val a + digit_val b \<and> 10 * digit_val a + digit_val b \<le> 12
            then [([a, b], r)] else []) @
           (if digit_val a \<noteq> 0 then [([a], b # r)] else [])"
  using digit_val_bound [OF assms(1)] digit_val_bound [OF assms(2)]
  by (auto simp: re_m_def nonzero_digit_def assms digit_is [OF assms(1)] digit_is [OF assms(2)])

lemma re_Y_four_digits:
  "is_digit a \<Longrightarrow> is_digit b \<Longrightarrow> is_digit c \<Longrightarrow> is_digit d \<Longrightarrow>
   re_Y (a # b # c # d # r) = [([a, b, c, d], r)]"
  by (simp add: re_Y_def)

lemma re_dot_dot: "re_dot (CHR ''.'' # r) = [r]"
  by (simp add: re_dot_def)

lemma re_dot_digit: "is_digit b \<Longrightarrow> re_dot (b # r) = []"
  by (simp add: re_dot_def digit_not_blank)

lemma py_int_two: "is_digit a \<Longrightarrow> py_int [a, b] = 10 * digit_val a + digit_val b"
  by (simp add: py_int_def int_of_digits_def digit_not_blank)

lemma py_int_four:
  "is_digit a \<Longrightarrow>
   py_int [a, b, c, d] = 1000 * digit_val a + 100 * digit_val b + 10 * digit_val c + digit_val d"
  by (simp add: py_int_def int_of_digits_def digit_not_blank)

lemma strptime_regex_form:
  assumes "is_digit d1" "is_digit d2" "is_digit m1" "is_digit m2"
    "is_digit y1" "is_digit y2" "is_digit y3" "is_digit y4"
  shows "strptime_regex [d1, d2, CHR ''.'', m1, m2, CHR ''.'', y1, y2, y3, y4] =
           (if 1 \<le> 10 * digit_val d1 + digit_val d2 \<and> 10 * digit_val d1 + digit_val d2 \<le> 31
               \<and> 1 \<le> 10 * digit_val m1 + digit_val m2 \<and> 10 * digit_val m1 + digit_val m2 \<le> 12
            then [(([d1, d2], [m1, m2], [y1, y2, y3, y4]), [])] else [])"
  using assms
  by (simp add: strptime_regex_def re_d_two_digits re_m_two_digits re_Y_four_digits re_dot_dot
        re_dot_digit)

lemma days_in_month_cases:
  assumes "1 \<le> m" and "m \<le> 12"
  shows "days_in_month y m =
           (if m = 2 then (if is_leap y then 29 else 28)
            else if m = 4 \<or> m = 6 \<or> m = 9 \<or> m = 11 then 30 else 31)"
proof -
  have "m = 1 \<or> m = 2 \<or> m = 3 \<or> m = 4 \<or> m = 5 \<or> m = 6 \<or> m = 7 \<or> m = 8 \<or> m = 9
        \<or> m = 10 \<or> m = 11 \<or> m = 12"
    using assms by arith
  then show ?thesis
    by (elim disjE) (simp_all add: days_in_month_def DAYS_IN_MONTH_def)
qed

lemma date_new_real:
  assumes "y \<le> 9999"
  shows "real_date y m d \<Longrightarrow> date_new y m d = Inr (Date y m d)"
    and "\<not> real_date y m d \<Longrightarrow> \<exists>t. date_new y m d = Inl (ValueError t)"
proof -
  show "real_date y m d \<Longrightarrow> date_new y m d = Inr (Date y m d)"
    using assms by (auto simp: real_date_def date_new_def days_in_month_cases is_leap_def)
  show "\<not> real_date y m d \<Longrightarrow> \<exists>t. date_new y m d = Inl (ValueError t)"
  proof -
    assume n: "\<not> real_date y m d"
    show ?thesis
    proof (cases "1 \<le> m \<and> m \<le> 12")
      case False
      then show ?thesis by (auto simp: date_new_def)
    next
      case True
      then show ?thesis using n assms
        by (auto simp: real_date_def date_new_def days_in_month_cases is_leap_def)
    qed
  qed
qed

lemma pad2_of_digits:
  assumes "is_digit a" and "is_digit b"
  shows "pad2 (10 * digit_val a + digit_val b) = [a, b]"
proof -
  have b: "digit_val a \<le> 9" "digit_val b \<le> 9" using assms digit_val_bound by simp_all
  then have "10 * digit_val a + digit_val b < 100"
    "(10 * digit_val a + digit_val b) div 10 = digit_val a"
    "(10 * digit_val a + digit_val b) mod 10 = digit_val b"
    by simp_all
  then show ?thesis using assms by (simp add: pad2_digits digit_char_digit_val)
qed

lemma pad4_of_digits:
  assumes "is_digit a" and "is_digit b" and "is_digit c" and "is_digit d"
  shows "pad4 (1000 * digit_val a + 100 * digit_val b + 10 * digit_val c + digit_val d)
           = [a, b, c, d]"
proof -
  define n1 where "n1 = 10 * digit_val a + digit_val b"
  define n2 where "n2 = 10 * n1 + digit_val c"
  define n where "n = 10 * n2 + digit_val d"
  have b: "digit_val a \<le> 9" "digit_val b \<le> 9" "digit_val c \<le> 9" "digit_val d \<le> 9"
    using assms digit_val_bound by simp_all
  have s1: "n1 div 10 = digit_val a" "n1 mod 10 = digit_val b" "n1 < 100"
    using b unfolding n1_def by simp_all
  have s2: "n2 div 10 = n1" "n2 mod 10 = digit_val c" "n2 < 1000"
    using b s1(3) unfolding n2_def by simp_all
  have s3: "n div 10 = n2" "n mod 10 = digit_val d" "n < 10000"
    using b s2(3) unfolding n_def by simp_all
  have "n div 100 = n div 10 div 10" "n div 1000 = n div 10 div 10 div 10"
    by (simp_all add: div_mult2_eq)
  then have digits: "n div 1000 = digit_val a" "n div 100 mod 10 = digit_val b"
    "n div 10 mod 10 = digit_val c"
    using s1 s2 s3 by simp_all
  have "1000 * digit_val a + 100 * digit_val b + 10 * digit_val c + digit_val d = n"
    unfolding n_def n2_def n1_def by simp
  then show ?thesis using digits s3 assms
    by (simp add: pad4_digits digit_char_digit_val)
qed

lemma str_nat_of_digits:
  assumes "is_digit a" and "is_digit b" and "is_digit c" and "is_digit d"
    and "digit_val a \<noteq> 0"
  shows "str_nat (1000 * digit_val a + 100 * digit_val b + 10 * digit_val c + digit_val d)
           = [a, b, c, d]"
proof -
  define n where "n = 1000 * digit_val a + 100 * digit_val b + 10 * digit_val c + digit_val d"
  have b: "digit_val a \<le> 9" "digit_val b \<le> 9" "digit_val c \<le> 9" "digit_val d \<le> 9"
    using assms digit_val_bound by simp_all
  have range: "1000 \<le> n" "n < 10000" using b assms(5) unfolding n_def by simp_all
  then have "pad4 n = str_nat n" by (simp add: pad4_digits str_nat_4digits)
  moreover have "pad4 n = [a, b, c, d]"
    unfolding n_def using assms(1-4) by (rule pad4_of_digits)
  ultimately show ?thesis unfolding n_def by simp
qed

lemma length_str_nat_short: "n < 1000 \<Longrightarrow> length (str_nat n) \<le> 3"
proof -
  assume n: "n < 1000"
  consider "n < 10" | "10 \<le> n" "n < 100" | "100 \<le> n"
    by arith
  then show ?thesis
  proof cases
    case 1
    then show ?thesis by (simp add: str_nat_small)
  next
    case 2
    then have "n div 10 < 10" by simp
    with 2 show ?thesis by (simp add: str_nat_step str_nat_small)
  next
    case 3
    with n show ?thesis by (simp add: str_nat_3digits)
  qed
qed

lemma dmY_form_shape:
  assumes "dmY_form s"
  obtains d1 d2 m1 m2 y1 y2 y3 y4 where
    "s = [d1, d2, CHR ''.'', m1, m2, CHR ''.'', y1, y2, y3, y4]"
    "is_digit d1" "is_digit d2" "is_digit m1" "is_digit m2"
    "is_digit y1" "is_digit y2" "is_digit y3" "is_digit y4"
proof -
  have "length s = 10" using assms by (simp add: dmY_form_def)
  then have "length s = Suc (Suc (Suc (Suc (Suc (Suc (Suc (Suc (Suc (Suc 0)))))))))"
    by simp
  then obtain a0 a1 a2 a3 a4 a5 a6 a7 a8 a9 where s: "s = [a0, a1, a2, a3, a4, a5, a6, a7, a8, a9]"
    by (auto simp: length_Suc_conv)
  with assms have "a2 = CHR ''.''" "a5 = CHR ''.''" "is_digit a0" "is_digit a1" "is_digit a3"
    "is_digit a4" "is_digit a6" "is_digit a7" "is_digit a8" "is_digit a9"
    by (simp_all add: dmY_form_def)
  with s that show ?thesis by blast
qed

lemma strptime_dmY_form:
  assumes "is_digit d1" "is_digit d2" "is_digit m1" "is_digit m2"
    "is_digit y1" "is_digit y2" "is_digit y3" "is_digit y4"
  shows "strptime_dmY [d1, d2, CHR ''.'', m1, m2, CHR ''.'', y1, y2, y3, y4] =
           (if 1 \<le> 10 * digit_val d1 + digit_val d2 \<and> 10 * digit_val d1 + digit_val d2 \<le> 31
               \<and> 1 \<le> 10 * digit_val m1 + digit_val m2 \<and> 10 * digit_val m1 + digit_val m2 \<le> 12
            then date_new (1000 * digit_val y1 + 100 * digit_val y2 + 10 * digit_val y3 + digit_val y4)
                   (10 * digit_val m1 + digit_val m2) (10 * digit_val d1 + digit_val d2)
            else Inl (ValueError ''time data does not match format''))"
  using assms by (simp add: strptime_dmY_def strptime_regex_form py_int_two py_int_four)

lemma real_date_bounds: "real_date y m d \<Longrightarrow> 1 \<le> d \<and> d \<le> 31 \<and> 1 \<le> m \<and> m \<le> 12"
  by (auto simp: real_date_def split: if_splits)

text \<open>
  What the class does on a string \<open>s\<close> in the form DD.MM.YYYY: when \<open>s\<close> denotes a real
  calendar date the construction succeeds, and the rendering is the day and the month as
  written followed by the year's numeral, which is \<open>s\<close> again exactly when the year is
  1000 or later; when \<open>s\<close> denotes no date the construction fails with the class's
  \<^verbatim>\<open>ValueError\<close>.
\<close>

lemma Birthday_parse_render:
  assumes "dmY_form s"
  shows "(real_date (dmY_year s) (dmY_month s) (dmY_day s) \<longrightarrow>
            Birthday_init s = Inr (Birthday (Date (dmY_year s) (dmY_month s) (dmY_day s)))
            \<and> Birthday_str (Birthday (Date (dmY_year s) (dmY_month s) (dmY_day s)))
                = take 6 s @ str_nat (dmY_year s)
            \<and> (Birthday_str (Birthday (Date (dmY_year s) (dmY_month s) (dmY_day s))) = s
                 \<longleftrightarrow> 1000 \<le> dmY_year s))
       \<and> (\<not> real_date (dmY_year s) (dmY_month s) (dmY_day s) \<longrightarrow>
            Birthday_init s = Inl (ValueError ''Invalid date format. Use DD.MM.YYYY''))"
proof -
  from assms obtain d1 d2 m1 m2 y1 y2 y3 y4 where
    s: "s = [d1, d2, CHR ''.'', m1, m2, CHR ''.'', y1, y2, y3, y4]" and
    dg: "is_digit d1" "is_digit d2" "is_digit m1" "is_digit m2"
        "is_digit y1" "is_digit y2" "is_digit y3" "is_digit y4"
    using dmY_form_shape [of s] by blast
  define D where "D = 10 * digit_val d1 + digit_val d2"
  define M where "M = 10 * digit_val m1 + digit_val m2"
  define Y where "Y = 1000 * digit_val y1 + 100 * digit_val y2 + 10 * digit_val y3 + digit_val y4"
  have vals: "dmY_day s = D" "dmY_month s = M" "dmY_year s = Y"
    by (simp_all add: s dmY_day_def dmY_month_def dmY_year_def int_of_digits_def D_def M_def Y_def)
  have bounds: "digit_val y1 \<le> 9" "digit_val y2 \<le> 9" "digit_val y3 \<le> 9" "digit_val y4 \<le> 9"
    using dg digit_val_bound by simp_all
  then have Y: "Y \<le> 9999" unfolding Y_def by simp
  have parse: "strptime_dmY s =
      (if 1 \<le> D \<and> D \<le> 31 \<and> 1 \<le> M \<and> M \<le> 12 then date_new Y M D
       else Inl (ValueError ''time data does not match format''))"
    unfolding s D_def M_def Y_def using dg by (rule strptime_dmY_form)
  have render: "strftime_dmY (Date Y M D) = [d1, d2, CHR ''.'', m1, m2, CHR ''.''] @ str_nat Y"
    using dg by (simp add: strftime_dmY_def D_def M_def pad2_of_digits)
  have prefix: "take 6 s = [d1, d2, CHR ''.'', m1, m2, CHR ''.'']"
    by (simp add: s)
  have same: "strftime_dmY (Date Y M D) = s \<longleftrightarrow> 1000 \<le> Y"
  proof (cases "1000 \<le> Y")
    case True
    have "digit_val y1 \<noteq> 0"
    proof
      assume "digit_val y1 = 0"
      then have "Y \<le> 999" using bounds unfolding Y_def by simp
      with True show False by simp
    qed
    then have "str_nat Y = [y1, y2, y3, y4]"
      unfolding Y_def using dg by (simp add: str_nat_of_digits)
    with True show ?thesis by (simp add: render s)
  next
    case False
    then have "length (str_nat Y) \<le> 3" by (simp add: length_str_nat_short)
    then have "length (strftime_dmY (Date Y M D)) \<noteq> length s" by (simp add: render s)
    then have "strftime_dmY (Date Y M D) \<noteq> s" by auto
    with False show ?thesis by simp
  qed
  show ?thesis
  proof (cases "real_date Y M D")
    case True
    then have "strptime_dmY s = Inr (Date Y M D)"
      using parse real_date_bounds [OF True] date_new_real(1) [OF Y True] by simp
    then show ?thesis using True render prefix same
      by (simp add: vals Birthday_init_def Birthday_str_def)
  next
    case False
    obtain t where "strptime_dmY s = Inl (ValueError t)"
      using parse date_new_real(2) [OF Y False] by (auto split: if_splits)
    then show ?thesis using False by (simp add: vals Birthday_init_def)
  qed
qed

lemma Birthday_examples:
  "Birthday_init ''29.02.2024'' = Inr (Birthday (Date 2024 2 29))"
  "Birthday_str (Birthday (Date 2024 2 29)) = ''29.02.2024''"
  "Birthday_init ''31.02.2020'' = Inl (ValueError ''Invalid date format. Use DD.MM.YYYY'')"
proof -
  have f1: "dmY_form ''29.02.2024''" by code_simp
  have f2: "dmY_form ''31.02.2020''" by code_simp
  have v1: "dmY_year ''29.02.2024'' = 2024" "dmY_month ''29.02.2024'' = 2"
    "dmY_day ''29.02.2024'' = 29" by code_simp+
  have v2: "dmY_year ''31.02.2020'' = 2020" "dmY_month ''31.02.2020'' = 2"
    "dmY_day ''31.02.2020'' = 31" by code_simp+
  have r1: "real_date 2024 2 29" by (simp add: real_date_def)
  have r2: "\<not> real_date 2020 2 31" by (simp add: real_date_def)
  show "Birthday_init ''29.02.2024'' = Inr (Birthday (Date 2024 2 29))"
    using r1 Birthday_parse_render [OF f1] unfolding v1 by simp
  show "Birthday_str (Birthday (Date 2024 2 29)) = ''29.02.2024''"
    by (simp add: Birthday_str_def strftime_dmY_def pad2_digits str_nat_4digits
        digit_char_numerals)
  show "Birthday_init ''31.02.2020'' = Inl (ValueError ''Invalid date format. Use DD.MM.YYYY'')"
    using r2 Birthday_parse_render [OF f2] unfolding v2 by simp
qed

text \<open>
  C4. The claim: for every string \<open>s\<close> in the form DD.MM.YYYY that denotes a real calendar
  date, constructing a Birthday from \<open>s\<close> succeeds and rendering the Birthday reproduces \<open>s\<close>
  character for character; for one that denotes no date the construction fails. The
  second half holds, and so does the first for the years 1000 to 9999
  (\<open>Birthday_parse_render\<close>). For a year below 1000 the rendering loses the year's leading
  zeros: the first of January of the year 999 is constructed from the ten characters
  01.01.0999 and rendered as the nine characters 01.01.999, which the class's own
  constructor rejects.
\<close>

theorem Birthday_year_999_loses_zero:
  "Birthday_init ''01.01.0999'' = Inr (Birthday (Date 999 1 1))
   \<and> Birthday_str (Birthday (Date 999 1 1)) = ''01.01.999''
   \<and> Birthday_init ''01.01.999'' = Inl (ValueError ''Invalid date format. Use DD.MM.YYYY'')"
proof -
  have f: "dmY_form ''01.01.0999''" by code_simp
  have v: "dmY_year ''01.01.0999'' = 999" "dmY_month ''01.01.0999'' = 1"
    "dmY_day ''01.01.0999'' = 1" by code_simp+
  have r: "real_date 999 1 1" by (simp add: real_date_def)
  have built: "Birthday_init ''01.01.0999'' = Inr (Birthday (Date 999 1 1))"
    using r Birthday_parse_render [OF f] unfolding v by simp
  have shown: "Birthday_str (Birthday (Date 999 1 1)) = ''01.01.999''"
    by (simp add: Birthday_str_def strftime_dmY_def pad2_digits str_nat_3digits
        digit_char_numerals)
  have "strptime_regex ''01.01.999'' = []"
    by (simp add: strptime_regex_def re_d_def re_m_def re_Y_def re_dot_def nonzero_digit_def
        is_digit_def)
  then have "Birthday_init ''01.01.999'' = Inl (ValueError ''Invalid date format. Use DD.MM.YYYY'')"
    by (simp add: Birthday_init_def strptime_dmY_def)
  with built shown show ?thesis by simp
qed

section \<open>Upcoming birthdays\<close>

lemma movable_date_new:
  assumes "movable b" and "1 \<le> y" and "y \<le> 9999"
  shows "date_new y (month b) (day b) = Inr (Date y (month b) (day b))"
proof -
  have "DAYS_IN_MONTH ! month b \<le> days_in_month y (month b)"
    by (simp add: days_in_month_def DAYS_IN_MONTH_def)
  then show ?thesis using assms by (simp add: date_new_def movable_def)
qed

lemma next_birthday_movable:
  assumes "movable b" and "1 \<le> year today" and "year today < 9999"
  shows "next_birthday today b = Inr (next_occurrence today b)"
proof -
  have this_year: "replace_year b (year today) = Inr (Date (year today) (month b) (day b))"
    using assms by (simp add: replace_year_def movable_date_new)
  have next_year: "date_new (Suc (year today)) (month b) (day b)
                     = Inr (Date (Suc (year today)) (month b) (day b))"
    using assms by (simp add: movable_date_new)
  show ?thesis
    using this_year next_year
    by (simp add: next_birthday_def replace_year_def date_less_def next_occurrence_def)
qed

lemma upcoming_loop_movable:
  assumes "1 \<le> year today" and "year today < 9999"
    and "list_all (\<lambda>r. case birthday r of None \<Rightarrow> True | Some b \<Rightarrow> movable (birthday_value b)) rs"
  shows "upcoming_loop today rs acc = Inr (acc @ map (entry_of today) (filter (selected today) rs))"
  using assms(3)
proof (induction rs arbitrary: acc)
  case Nil
  then show ?case by simp
next
  case (Cons r rs)
  then have rest: "\<And>acc. upcoming_loop today rs acc
                      = Inr (acc @ map (entry_of today) (filter (selected today) rs))"
    by simp
  show ?case
  proof (cases "birthday r")
    case None
    then have "\<not> selected today r" by (simp add: selected_def)
    then show ?thesis using None rest by simp
  next
    case (Some b)
    with Cons.prems have "movable (birthday_value b)" by simp
    then have nb: "next_birthday today (birthday_value b)
                 = Inr (next_occurrence today (birthday_value b))"
      using assms(1,2) by (rule next_birthday_movable)
    have sel: "selected today r \<longleftrightarrow>
                 0 \<le> days_until today (birthday_value b) \<and> days_until today (birthday_value b) \<le> 6"
      using Some by (simp add: selected_def)
    have ent: "entry_of today r =
                 \<lparr>entry_name = name_value (name r),
                  entry_birthday = isoformat (next_occurrence today (birthday_value b)),
                  days_until_birthday = days_until today (birthday_value b)\<rparr>"
      using Some by (simp add: entry_of_def)
    have d: "days_between (next_occurrence today (birthday_value b)) today
               = days_until today (birthday_value b)"
      by (simp add: days_until_def days_between_def)
    show ?thesis
    proof (cases "selected today r")
      case True
      with sel show ?thesis using Some nb rest ent d by (simp add: Let_def)
    next
      case False
      with sel show ?thesis using Some nb rest d by (simp add: Let_def)
    qed
  qed
qed

lemma get_upcoming_birthdays_movable:
  assumes "1 \<le> year today" and "year today < 9999" and "all_movable book"
  shows "get_upcoming_birthdays today book
           = Inr (map (entry_of today) (filter (selected today) (map snd book)))"
proof -
  have "list_all (\<lambda>r. case birthday r of None \<Rightarrow> True | Some b \<Rightarrow> movable (birthday_value b))
          (map snd book)"
    using assms(3) by (simp add: all_movable_def list_all_iff)
  then show ?thesis
    using upcoming_loop_movable [OF assms(1,2), of "map snd book" "[]"]
    by (simp add: get_upcoming_birthdays_def)
qed

lemma upcoming_examples:
  "get_upcoming_birthdays (Date 2024 3 10)
     [(''Ann'', \<lparr>name = Name ''Ann'', phones = [], birthday = Some (Birthday (Date 1990 3 13))\<rparr>)]
   = Inr [\<lparr>entry_name = ''Ann'', entry_birthday = ''2024-03-13'', days_until_birthday = 3\<rparr>]"
  "get_upcoming_birthdays (Date 2024 3 10)
     [(''Ann'', \<lparr>name = Name ''Ann'', phones = [], birthday = Some (Birthday (Date 1990 3 18))\<rparr>)]
   = Inr []"
  "get_upcoming_birthdays (Date 2024 3 10)
     [(''Ann'', \<lparr>name = Name ''Ann'', phones = [], birthday = Some (Birthday (Date 1990 3 10))\<rparr>)]
   = Inr [\<lparr>entry_name = ''Ann'', entry_birthday = ''2024-03-10'', days_until_birthday = 0\<rparr>]"
  "get_upcoming_birthdays (Date 2023 12 30)
     [(''Ann'', \<lparr>name = Name ''Ann'', phones = [], birthday = Some (Birthday (Date 1990 1 2))\<rparr>)]
   = Inr [\<lparr>entry_name = ''Ann'', entry_birthday = ''2024-01-02'', days_until_birthday = 3\<rparr>]"
  by (simp_all add: get_upcoming_birthdays_def calendar_simps)

text \<open>
  C3. The claim: for every book and every today, \<^verbatim>\<open>get_upcoming_birthdays\<close> selects exactly
  the records with a birthday whose next occurrence is between 0 and 6 days away. In a
  book whose birthdays avoid the 29th of February the function returns exactly these
  records, in the book's order (\<open>get_upcoming_birthdays_movable\<close>), and the claim's three
  examples hold (\<open>upcoming_examples\<close>). A record with a birthday on the 29th of February
  makes the function raise in a year that is not a leap year, and then no record is
  returned: on 27 February 2023 Ann's birthday on 1 March is two days away and is
  returned when Ann is alone in the book, and is lost to the error when Bob, born on
  the 29th of February, is in the book as well.
\<close>

theorem leap_day_record_hides_upcoming:
  "selected (Date 2023 2 27)
     \<lparr>name = Name ''Ann'', phones = [], birthday = Some (Birthday (Date 1990 3 1))\<rparr>
   \<and> get_upcoming_birthdays (Date 2023 2 27)
       [(''Ann'', \<lparr>name = Name ''Ann'', phones = [], birthday = Some (Birthday (Date 1990 3 1))\<rparr>)]
     = Inr [\<lparr>entry_name = ''Ann'', entry_birthday = ''2023-03-01'', days_until_birthday = 2\<rparr>]
   \<and> get_upcoming_birthdays (Date 2023 2 27)
       [(''Ann'', \<lparr>name = Name ''Ann'', phones = [], birthday = Some (Birthday (Date 1990 3 1))\<rparr>),
        (''Bob'', \<lparr>name = Name ''Bob'', phones = [], birthday = Some (Birthday (Date 2000 2 29))\<rparr>)]
     = Inl (ValueError ''day is out of range for month'')"
  by (simp add: selected_def days_until_def next_occurrence_def get_upcoming_birthdays_def
        calendar_simps)

end
